theory Spec2Isabelle
  imports Main "HOL-Library.AList" "HOL-Library.Sublist" "HOL-Library.Multiset"
begin

section \<open>JavaScript containers\<close>

text \<open>
  A JavaScript \<^verbatim>\<open>Map\<close> keeps its entries in insertion order and holds every key once.
  It is an association list here: \<^verbatim>\<open>set\<close> overwrites the value of a key that is already
  there, at its place, and appends a new key at the end; \<^verbatim>\<open>delete\<close> removes the key and
  keeps the order of the others.
\<close>

type_synonym ('k, 'v) js_map = "('k \<times> 'v) list"

definition map_get :: "('k, 'v) js_map \<Rightarrow> 'k \<Rightarrow> 'v option" where
  "map_get m k = map_of m k"

definition map_has :: "('k, 'v) js_map \<Rightarrow> 'k \<Rightarrow> bool" where
  "map_has m k = (map_of m k \<noteq> None)"

definition map_set :: "('k, 'v) js_map \<Rightarrow> 'k \<Rightarrow> 'v \<Rightarrow> ('k, 'v) js_map" where
  "map_set m k v = AList.update k v m"

definition map_delete :: "('k, 'v) js_map \<Rightarrow> 'k \<Rightarrow> ('k, 'v) js_map" where
  "map_delete m k = AList.delete k m"

definition map_keys :: "('k, 'v) js_map \<Rightarrow> 'k list" where
  "map_keys m = map fst m"

text \<open>
  \<^verbatim>\<open>Array.prototype.sort(cmp)\<close> is stable. With the comparator \<open>cmp\<close> it is the
  insertion sort below: an element goes before the first one it does not compare
  greater than, so elements that compare equal keep their order.
\<close>

fun insert_by :: "('a \<Rightarrow> 'a \<Rightarrow> int) \<Rightarrow> 'a \<Rightarrow> 'a list \<Rightarrow> 'a list" where
  "insert_by cmp x [] = [x]"
| "insert_by cmp x (y # ys) =
     (if cmp x y \<le> 0 then x # y # ys else y # insert_by cmp x ys)"

definition sort_by :: "('a \<Rightarrow> 'a \<Rightarrow> int) \<Rightarrow> 'a list \<Rightarrow> 'a list" where
  "sort_by cmp xs = foldr (insert_by cmp) xs []"

text \<open>
  \<^verbatim>\<open>a.localeCompare(b)\<close> is a function of the host: it compares with the collation of the
  default locale of the JavaScript runtime. The functions below take it as the parameter
  \<open>localeCompare\<close>. \<open>collate w\<close> is a family of such comparators for the concrete runs
  of this theory: it compares two strings character by character by the weight \<open>w\<close> that
  the locale's alphabet gives each character.
\<close>

fun collate :: "(char \<Rightarrow> nat) \<Rightarrow> string \<Rightarrow> string \<Rightarrow> int" where
  "collate w [] [] = 0"
| "collate w [] (y # ys) = - 1"
| "collate w (x # xs) [] = 1"
| "collate w (x # xs) (y # ys) =
     (if w x < w y then - 1 else if w y < w x then 1 else collate w xs ys)"

definition en_weight :: "char \<Rightarrow> nat" where
  "en_weight c = 2 * of_char c"

text \<open>The Estonian alphabet has z between s and t.\<close>

definition et_weight :: "char \<Rightarrow> nat" where
  "et_weight c = (if c = CHR ''z'' then 2 * of_char CHR ''s'' + 1 else 2 * of_char c)"


section \<open>Filters and file lists\<close>

text \<open>
  Modelled from the spec: the Filter Engine (\<^verbatim>\<open>config/filters\<close>) is missing from the
  sources. A \<open>Filters\<close> value is the predicate that \<^verbatim>\<open>filterValue(filters, value)\<close>
  decides; \<open>filterValues\<close> keeps the candidates that match, in their order, and
  \<open>filterKeys\<close> keeps the entries of a map whose key matches.
\<close>

type_synonym Filters = "string \<Rightarrow> bool"

definition filterValue :: "Filters \<Rightarrow> string \<Rightarrow> bool" where
  "filterValue filters v = filters v"

definition filterValues :: "Filters \<Rightarrow> string list \<Rightarrow> string list" where
  "filterValues filters vs = filter (filterValue filters) vs"

definition filterKeys :: "Filters \<Rightarrow> (string, 'v) js_map \<Rightarrow> (string, 'v) js_map" where
  "filterKeys filters m = filter (\<lambda>(k, v). filterValue filters k) m"

text \<open>
  Modelled from the spec: \<^verbatim>\<open>diffLists\<close> (\<^verbatim>\<open>blobs/file-list\<close>) is missing from the
  sources. The diff of section 4.3 is the stock items whose identity is absent from
  custom; the caller passes the custom list first.
\<close>

definition diffLists :: "string list \<Rightarrow> string list \<Rightarrow> string list" where
  "diffLists filesNew filesRef = filter (\<lambda>f. f \<notin> set filesNew) filesRef"


section \<open>enumerateFiles\<close>

type_synonym PartitionProps = "(string, (string, string) js_map) js_map"

type_synonym SelinuxContexts = "(string, string) js_map"

record SystemState =
  partitionFiles :: "string \<Rightarrow> string list option"
  partitionProps :: PartitionProps
  partitionSecontexts :: "(string, SelinuxContexts) js_map"

text \<open>
  Lines 44 to 46: the custom listing of a partition comes from the saved state, or from
  the custom source, or is empty when neither is given. \<open>listPart\<close> (missing from the
  sources) is a parameter; it returns \<open>None\<close> for a partition that the root does not have.
\<close>

definition customFiles ::
  "(string \<Rightarrow> string \<Rightarrow> 'f \<Rightarrow> string list option) \<Rightarrow> 'f \<Rightarrow> SystemState option \<Rightarrow>
     string option \<Rightarrow> string \<Rightarrow> string list option" where
  "customFiles listPart filters customState customSrc part =
     (case customState of
        Some st \<Rightarrow> partitionFiles st part
      | None \<Rightarrow>
          (case customSrc of
             Some src \<Rightarrow> listPart part src filters
           | None \<Rightarrow> Some []))"

text \<open>Lines 49 to 57: the diff, then the forced files of the stock list pushed and the
  whole array sorted again.\<close>

definition mergeForced ::
  "(string \<Rightarrow> string \<Rightarrow> int) \<Rightarrow> Filters option \<Rightarrow> string list \<Rightarrow> string list \<Rightarrow> string list" where
  "mergeForced localeCompare forceIncludeFilters filesNew filesRef =
     (let missingFiles = diffLists filesNew filesRef in
      case forceIncludeFilters of
        None \<Rightarrow> missingFiles
      | Some force \<Rightarrow>
          (let forcedFiles = filterValues force filesRef in
           sort_by localeCompare (missingFiles @ forcedFiles)))"

text \<open>Lines 59 to 62: every path of the array is set in \<open>namedEntries\<close>.
  \<open>combinedPartPathToEntry\<close> (missing from the sources) is a parameter.\<close>

definition setEntries ::
  "(string \<Rightarrow> string \<Rightarrow> 'e) \<Rightarrow> string \<Rightarrow> (string, 'e) js_map \<Rightarrow> string list \<Rightarrow> (string, 'e) js_map" where
  "setEntries combinedPartPathToEntry part namedEntries missingFiles =
     foldl (\<lambda>m combinedPartPath.
              map_set m combinedPartPath (combinedPartPathToEntry part combinedPartPath))
       namedEntries missingFiles"

text \<open>The body of the loop over the partitions: \<^verbatim>\<open>continue\<close> leaves \<open>namedEntries\<close>
  as it is.\<close>

definition enumeratePartition ::
  "(string \<Rightarrow> string \<Rightarrow> int) \<Rightarrow> (string \<Rightarrow> string \<Rightarrow> 'f \<Rightarrow> string list option) \<Rightarrow>
     (string \<Rightarrow> string \<Rightarrow> 'e) \<Rightarrow> 'f \<Rightarrow> Filters option \<Rightarrow> SystemState option \<Rightarrow> string \<Rightarrow>
     string option \<Rightarrow> (string, 'e) js_map \<Rightarrow> string \<Rightarrow> (string, 'e) js_map" where
  "enumeratePartition localeCompare listPart combinedPartPathToEntry filters forceIncludeFilters
       customState stockSrc customSrc namedEntries part =
     (case listPart part stockSrc filters of
        None \<Rightarrow> namedEntries
      | Some filesRef \<Rightarrow>
          (case customFiles listPart filters customState customSrc part of
             None \<Rightarrow> namedEntries
           | Some filesNew \<Rightarrow>
               setEntries combinedPartPathToEntry part namedEntries
                 (mergeForced localeCompare forceIncludeFilters filesNew filesRef)))"

text \<open>\<open>ALL_SYS_PARTITIONS\<close> (missing from the sources) is the parameter \<open>partitions\<close>.\<close>

definition enumerateFiles ::
  "string list \<Rightarrow> (string \<Rightarrow> string \<Rightarrow> int) \<Rightarrow> (string \<Rightarrow> string \<Rightarrow> 'f \<Rightarrow> string list option) \<Rightarrow>
     (string \<Rightarrow> string \<Rightarrow> 'e) \<Rightarrow> 'f \<Rightarrow> Filters option \<Rightarrow> (string, 'e) js_map \<Rightarrow>
     SystemState option \<Rightarrow> string \<Rightarrow> string option \<Rightarrow> (string, 'e) js_map" where
  "enumerateFiles partitions localeCompare listPart combinedPartPathToEntry filters
       forceIncludeFilters namedEntries customState stockSrc customSrc =
     foldl (enumeratePartition localeCompare listPart combinedPartPathToEntry filters
              forceIncludeFilters customState stockSrc customSrc)
       namedEntries partitions"


section \<open>resolveOverrides\<close>

datatype error = TypeError

text \<open>The fields of \<^verbatim>\<open>DeviceConfig\<close> and \<^verbatim>\<open>VendorDirectories\<close> that the functions
  below read (both types are declared outside the sources at hand).\<close>

record DeviceConfig =
  device_name :: string
  platform_sepolicy_dirs :: "string list"
  filters_props :: Filters
  filters_partitions :: Filters
  filters_sepolicy_dirs :: Filters

record VendorDirectories =
  out :: string
  proprietary :: string
  firmware :: string
  sepolicy :: string

text \<open>\<^verbatim>\<open>String.prototype.replace\<close> with a string pattern replaces the first occurrence
  of the pattern, wherever it is.\<close>

fun replace :: "string \<Rightarrow> string \<Rightarrow> string \<Rightarrow> string" where
  "replace pat rep [] = (if pat = [] then rep else [])"
| "replace pat rep (c # cs) =
     (if prefix pat (c # cs) then rep @ drop (length pat) (c # cs)
      else c # replace pat rep cs)"

text \<open>
  Modelled from the spec: the module metadata (\<^verbatim>\<open>build/soong-info\<close>) and the override
  matching (\<^verbatim>\<open>build/overrides\<close>) are missing from the sources. Section 3 gives a module
  its installed paths, its class and its owning directory; section 4.5 removes the
  modules owned by the tool's own output directory, then records every module with an
  installed path among the candidates, and the matched paths as built.
\<close>

record TargetModuleInfo =
  installedPaths :: "string list"
  moduleClass :: string
  owningDir :: string

type_synonym ModuleInfo = "(string, TargetModuleInfo) js_map"

definition removeSelfModules :: "ModuleInfo \<Rightarrow> string \<Rightarrow> ModuleInfo" where
  "removeSelfModules modulesMap proprietaryDir =
     filter (\<lambda>(name, m). owningDir m \<noteq> proprietaryDir) modulesMap"

definition findOverrideModules :: "string list \<Rightarrow> ModuleInfo \<Rightarrow> string list \<times> string list" where
  "findOverrideModules overridePaths modulesMap =
     (map fst (filter (\<lambda>(name, m). list_ex (\<lambda>p. p \<in> set overridePaths) (installedPaths m)) modulesMap),
      remdups (concat (map (\<lambda>(name, m). filter (\<lambda>p. p \<in> set overridePaths) (installedPaths m))
                         modulesMap)))"

text \<open>
  \<open>resolveOverrides\<close> as the source has it. The reading and parsing of
  \<^verbatim>\<open>module-info.json\<close> and the two helpers are parameters; the result is the returned
  modules and \<open>namedEntries\<close> as the function leaves it.
\<close>

definition resolveOverrides ::
  "(string \<Rightarrow> 'm) \<Rightarrow> ('m \<Rightarrow> string \<Rightarrow> 'm) \<Rightarrow> (string list \<Rightarrow> 'm \<Rightarrow> string list \<times> string list) \<Rightarrow>
     DeviceConfig \<Rightarrow> VendorDirectories \<Rightarrow> (string, 'e) js_map \<Rightarrow> string list \<times> (string, 'e) js_map" where
  "resolveOverrides parseModuleInfo removeSelf findOverride config dirs namedEntries =
     (let targetPrefix = ''out/target/product/'' @ device_name config @ ''/'';
          targetPaths = map (\<lambda>cPartPath. targetPrefix @ cPartPath) (map_keys namedEntries);
          moduleInfoPath = targetPrefix @ ''module-info.json'';
          modulesMap = removeSelf (parseModuleInfo moduleInfoPath) (proprietary dirs);
          (builtModules, builtPaths) = findOverride targetPaths modulesMap
      in (builtModules,
          foldl (\<lambda>m path. map_delete m (replace targetPrefix [] path)) namedEntries builtPaths))"

text \<open>Lines 270 to 272 of \<open>generateBuildFiles\<close>: the build packages pushed on the packages
  of the device makefile, and the array sorted again. The packages are optional in
  \<^verbatim>\<open>ProductMakefile\<close>; pushing on a missing array is a \<^verbatim>\<open>TypeError\<close>.\<close>

definition addBuildPackages ::
  "(string \<Rightarrow> string \<Rightarrow> int) \<Rightarrow> string list option \<Rightarrow> string list \<Rightarrow> error + string list" where
  "addBuildPackages localeCompare packages buildPkgs =
     (case packages of
        None \<Rightarrow> Inl TypeError
      | Some pkgs \<Rightarrow> Inr (sort_by localeCompare (pkgs @ buildPkgs)))"


text \<open>
  Modelled from the spec: the command that calls \<open>resolveOverrides\<close> and then
  \<open>generateBuildFiles\<close> is missing from the sources. Section 4.5: the caller removes the
  built paths from the missing artifacts and instead emits the override modules as
  build-package dependencies. The modules that \<open>resolveOverrides\<close> returns are the
  build packages of \<open>generateBuildFiles\<close>, followed by the packages of the overlays (the
  comment of line 270 names both); the result is the packages of the device makefile
  and \<open>namedEntries\<close> as \<open>resolveOverrides\<close> leaves it.
\<close>

definition emitOverrides ::
  "(string \<Rightarrow> string \<Rightarrow> int) \<Rightarrow> (string \<Rightarrow> 'm) \<Rightarrow> ('m \<Rightarrow> string \<Rightarrow> 'm) \<Rightarrow>
     (string list \<Rightarrow> 'm \<Rightarrow> string list \<times> string list) \<Rightarrow> DeviceConfig \<Rightarrow> VendorDirectories \<Rightarrow>
     (string, 'e) js_map \<Rightarrow> string list \<Rightarrow> string list option \<Rightarrow>
     (error + string list) \<times> (string, 'e) js_map" where
  "emitOverrides localeCompare parseModuleInfo removeSelf findOverride config dirs namedEntries
       overlayPkgs packages =
     (case resolveOverrides parseModuleInfo removeSelf findOverride config dirs namedEntries of
        (builtModules, entries) \<Rightarrow>
          (let buildPkgs = builtModules @ overlayPkgs
           in (addBuildPackages localeCompare packages buildPkgs, entries)))"


section \<open>extractProps\<close>

record PropResults =
  stockProps :: PartitionProps
  missingProps :: "PartitionProps option"
  fingerprint :: "string option"
  missingOtaParts :: "string list"

text \<open>
  Modelled from the spec: \<^verbatim>\<open>diffPartitionProps\<close> (\<^verbatim>\<open>blobs/props\<close>) is missing from the
  sources. Section 4.3: for a partition of both images, a property is removed when it
  is in stock and absent from custom, and changed when it is in both with different
  values; a partition absent from one image is skipped (section 7).
\<close>

record PropChanges =
  removed :: "(string, string) js_map"
  changed :: "(string, string) js_map"

definition diffPartitionProps :: "PartitionProps \<Rightarrow> PartitionProps \<Rightarrow> (string, PropChanges) js_map" where
  "diffPartitionProps partPropsRef partPropsNew =
     concat (map (\<lambda>(part, propsRef).
        case map_get partPropsNew part of
          None \<Rightarrow> []
        | Some propsNew \<Rightarrow>
            [(part,
              \<lparr>removed = filter (\<lambda>(k, v). \<not> map_has propsNew k) propsRef,
               changed = filter (\<lambda>(k, v). case map_get propsNew k of
                                             None \<Rightarrow> False | Some v' \<Rightarrow> v' \<noteq> v) propsRef\<rparr>)])
       partPropsRef)"

text \<open>\<^verbatim>\<open>s.split(',')\<close>: the pieces between the separators; the empty string has one
  empty piece.\<close>

fun split :: "char \<Rightarrow> string \<Rightarrow> string list" where
  "split sep [] = [[]]"
| "split sep (c # cs) =
     (if c = sep then [] # split sep cs
      else (case split sep cs of
              [] \<Rightarrow> [[c]]
            | w # ws \<Rightarrow> (c # w) # ws))"

text \<open>
  \<open>extractProps\<close> as the source has it. \<open>loadPartitionProps\<close> and the diff are parameters.
  \<^verbatim>\<open>m.get(k)!.get(k')\<close> raises a \<^verbatim>\<open>TypeError\<close> when \<^verbatim>\<open>m\<close> has no \<^verbatim>\<open>k\<close>: the \<^verbatim>\<open>!\<close> of
  TypeScript checks nothing at run time, so \<^verbatim>\<open>m.get(k)!\<close> alone is \<^verbatim>\<open>undefined\<close> and only
  the read of a member of it fails.
\<close>

definition extractProps ::
  "(string \<Rightarrow> PartitionProps) \<Rightarrow> (PartitionProps \<Rightarrow> PartitionProps \<Rightarrow> (string, PropChanges) js_map) \<Rightarrow>
     DeviceConfig \<Rightarrow> SystemState option \<Rightarrow> string \<Rightarrow> string option \<Rightarrow> error + PropResults" where
  "extractProps loadPartitionProps diffProps config customState stockSrc customSrc =
     (let stockProps0 = loadPartitionProps stockSrc;
          customProps0 =
            (case customState of
               Some st \<Rightarrow> partitionProps st
             | None \<Rightarrow> (case customSrc of Some src \<Rightarrow> loadPartitionProps src | None \<Rightarrow> []));
          stockProps = map (\<lambda>(part, props). (part, filterKeys (filters_props config) props)) stockProps0;
          customProps = map (\<lambda>(part, props). (part, filterKeys (filters_props config) props)) customProps0
      in case map_get stockProps ''system'' of
           None \<Rightarrow> Inl TypeError
         | Some systemProps \<Rightarrow>
             (let fingerprint = map_get systemProps ''ro.system.build.fingerprint'';
                  propChanges = diffProps stockProps customProps;
                  missingProps = map (\<lambda>(part, props). (part, removed props)) propChanges
              in case map_get stockProps ''product'' of
                   None \<Rightarrow> Inl TypeError
                 | Some productProps \<Rightarrow>
                     (case map_get productProps ''ro.product.ab_ota_partitions'' of
                        None \<Rightarrow> Inl TypeError
                      | Some ota \<Rightarrow>
                          (let stockOtaParts = split CHR '','' ota;
                               customOtaParts =
                                 (case map_get customProps ''product'' of
                                    None \<Rightarrow> []
                                  | Some customProduct \<Rightarrow>
                                      (case map_get customProduct ''ro.product.ab_ota_partitions'' of
                                         None \<Rightarrow> []
                                       | Some customOta \<Rightarrow> split CHR '','' customOta));
                               missingOtaParts =
                                 filter (\<lambda>p. p \<notin> set customOtaParts \<and>
                                             filterValue (filters_partitions config) p) stockOtaParts
                           in Inr \<lparr>stockProps = stockProps, missingProps = Some missingProps,
                                   fingerprint = fingerprint,
                                   missingOtaParts = missingOtaParts\<rparr>))))"


section \<open>resolveSepolicyDirs\<close>

record SelinuxPartResolution =
  sepolicyDirs :: "string list"
  missingContexts :: "string list"

type_synonym SelinuxPartResolutions = "(string, SelinuxPartResolution) js_map"

text \<open>Lines 179 to 186: the contexts of every configured directory, in the order of the
  configuration, set one by one in \<open>sourceContexts\<close>. \<open>parseContextsRecursive\<close> (missing
  from the sources) is a parameter; its result is a \<^verbatim>\<open>Map\<close> in the order of its walk.\<close>

definition sourceContexts :: "(string \<Rightarrow> SelinuxContexts) \<Rightarrow> string list \<Rightarrow> SelinuxContexts" where
  "sourceContexts parseContextsRecursive sepolicy_dirs =
     foldl (\<lambda>acc dir.
              foldl (\<lambda>acc' (ctx, source). map_set acc' ctx source) acc (parseContextsRecursive dir))
       [] sepolicy_dirs"

text \<open>Lines 192 to 195: the push on the directories of the vendor resolution, under its
  guard. The resolution object is changed in place, so the entry keeps its position.\<close>

definition addApexLabels :: "VendorDirectories \<Rightarrow> SelinuxPartResolutions \<Rightarrow> SelinuxPartResolutions" where
  "addApexLabels dirs ctxResolutions =
     (if map_has ctxResolutions ''vendor'' then
        (case map_get ctxResolutions ''vendor'' of
           None \<Rightarrow> ctxResolutions
         | Some r \<Rightarrow>
             map_set ctxResolutions ''vendor'' (r\<lparr>sepolicyDirs := sepolicyDirs r @ [sepolicy dirs]\<rparr>))
      else ctxResolutions)"

text \<open>\<open>resolveSepolicyDirs\<close> as the source has it; the parsers, the diff and the resolver
  of \<^verbatim>\<open>selinux/contexts\<close> (missing from the sources) are parameters.\<close>

definition resolveSepolicyDirs ::
  "(string \<Rightarrow> (string, SelinuxContexts) js_map) \<Rightarrow> (string \<Rightarrow> SelinuxContexts) \<Rightarrow>
     ((string, SelinuxContexts) js_map \<Rightarrow> (string, SelinuxContexts) js_map \<Rightarrow> 'd) \<Rightarrow>
     ('d \<Rightarrow> SelinuxContexts \<Rightarrow> Filters \<Rightarrow> SelinuxPartResolutions) \<Rightarrow>
     DeviceConfig \<Rightarrow> SystemState option \<Rightarrow> VendorDirectories \<Rightarrow> string \<Rightarrow> string \<Rightarrow>
     SelinuxPartResolutions" where
  "resolveSepolicyDirs parsePartContexts parseContextsRecursive diffPartContexts
       resolvePartContextDiffs config customState dirs stockSrc customSrc =
     (let stockContexts = parsePartContexts stockSrc;
          customContexts =
            (case customState of
               Some st \<Rightarrow> partitionSecontexts st
             | None \<Rightarrow> parsePartContexts customSrc);
          srcContexts = sourceContexts parseContextsRecursive (platform_sepolicy_dirs config);
          ctxDiffs = diffPartContexts customContexts stockContexts;
          ctxResolutions = resolvePartContextDiffs ctxDiffs srcContexts (filters_sepolicy_dirs config)
      in addApexLabels dirs ctxResolutions)"


section \<open>serializeBoardMakefile\<close>

record BoardMakefile =
  abOtaPartitions :: "string list option"
  boardInfo :: "string option"
  secontextResolutions :: "SelinuxPartResolutions option"

definition CONT_SEPARATOR :: string where
  "CONT_SEPARATOR = [CHR '' '', CHR 0x5C, CHR 0x0A] @ ''    ''"

definition SEPOLICY_PARTITION_VARS :: "(string \<times> string) list" where
  "SEPOLICY_PARTITION_VARS =
     [(''system'', ''BOARD_PLAT_PUBLIC_SEPOLICY_DIR''),
      (''system_ext'', ''SYSTEM_EXT_PUBLIC_SEPOLICY_DIRS''),
      (''product'', ''PRODUCT_PUBLIC_SEPOLICY_DIRS''),
      (''vendor'', ''BOARD_VENDOR_SEPOLICY_DIRS''),
      (''odm'', ''BOARD_ODM_SEPOLICY_DIRS'')]"

text \<open>\<^verbatim>\<open>Array.prototype.join\<close>.\<close>

fun join :: "string \<Rightarrow> string list \<Rightarrow> string" where
  "join sep [] = []"
| "join sep [x] = x"
| "join sep (x # y # ys) = x @ sep @ join sep (y # ys)"

text \<open>\<open>MAKEFILE_HEADER\<close> (missing from the sources) is a parameter.\<close>

definition startBlocks :: "string \<Rightarrow> string list" where
  "startBlocks MAKEFILE_HEADER = [MAKEFILE_HEADER]"

definition finishBlocks :: "string list \<Rightarrow> string" where
  "finishBlocks blocks = join [CHR 0x0A, CHR 0x0A] blocks @ [CHR 0x0A]"

text \<open>
  \<^verbatim>\<open>SEPOLICY_PARTITION_VARS[partition]\<close> reads a property of a plain object: the
  object's own entry for the key when it has one, else the member that the object
  inherits from \<^verbatim>\<open>Object.prototype\<close> under that name, else \<^verbatim>\<open>undefined\<close>. The inherited
  members are built-in functions, but for \<^verbatim>\<open>__proto__\<close>, which reads the prototype
  object itself; the function under \<^verbatim>\<open>constructor\<close> is \<^verbatim>\<open>Object\<close>.
\<close>

datatype js_value = Undefined | Str string | NativeFunction string | ObjectPrototype

definition OBJECT_PROTOTYPE_FUNCTIONS :: "string list" where
  "OBJECT_PROTOTYPE_FUNCTIONS =
     [''__defineGetter__'', ''__defineSetter__'', ''hasOwnProperty'', ''__lookupGetter__'',
      ''__lookupSetter__'', ''isPrototypeOf'', ''propertyIsEnumerable'', ''toString'',
      ''valueOf'', ''toLocaleString'']"

definition object_get :: "(string \<times> string) list \<Rightarrow> string \<Rightarrow> js_value" where
  "object_get obj key =
     (case map_of obj key of
        Some v \<Rightarrow> Str v
      | None \<Rightarrow>
          if key = ''constructor'' then NativeFunction ''Object''
          else if key = ''__proto__'' then ObjectPrototype
          else if key \<in> set OBJECT_PROTOTYPE_FUNCTIONS then NativeFunction key
          else Undefined)"

text \<open>The text of a value in a template string: the word for \<^verbatim>\<open>undefined\<close>, the source
  text of a built-in function, the tag of a plain object.\<close>

definition template :: "js_value \<Rightarrow> string" where
  "template v =
     (case v of
        Undefined \<Rightarrow> ''undefined''
      | Str s \<Rightarrow> s
      | NativeFunction name \<Rightarrow> ''function '' @ name @ ''() { [native code] }''
      | ObjectPrototype \<Rightarrow> ''[object Object]'')"

definition contBlock :: "js_value \<Rightarrow> string list \<Rightarrow> string" where
  "contBlock variable items =
     template variable @ '' += '' @ [CHR 0x5C, CHR 0x0A] @ ''    '' @ join CONT_SEPARATOR items"

definition addContBlock :: "string list \<Rightarrow> js_value \<Rightarrow> string list option \<Rightarrow> string list" where
  "addContBlock blocks variable items =
     (case items of
        None \<Rightarrow> blocks
      | Some its \<Rightarrow> blocks @ [contBlock variable its])"

definition missingComment :: "string \<Rightarrow> string \<Rightarrow> string" where
  "missingComment part c = ''# Missing '' @ part @ '' SELinux context: '' @ c"

text \<open>The body of the loop of lines 157 to 167, on the blocks so far.\<close>

definition pushResolution :: "string list \<Rightarrow> string \<times> SelinuxPartResolution \<Rightarrow> string list" where
  "pushResolution blocks entry =
     (case entry of (part, r) \<Rightarrow>
        (let partVar = object_get SEPOLICY_PARTITION_VARS part;
             blocks1 = (if length (sepolicyDirs r) > 0
                        then addContBlock blocks partVar (Some (sepolicyDirs r)) else blocks)
         in if length (missingContexts r) > 0
            then blocks1 @ [join [CHR 0x0A] (map (missingComment part) (missingContexts r))]
            else blocks1))"

text \<open>The blocks that one pass of the loop body adds to the blocks so far
  (\<open>pushResolution_append\<close> below).\<close>

definition resolutionBlocks :: "string \<times> SelinuxPartResolution \<Rightarrow> string list" where
  "resolutionBlocks entry =
     (case entry of (part, r) \<Rightarrow>
        (if sepolicyDirs r \<noteq> []
         then [contBlock (object_get SEPOLICY_PARTITION_VARS part) (sepolicyDirs r)]
         else []) @
        (if missingContexts r \<noteq> []
         then [join [CHR 0x0A] (map (missingComment part) (missingContexts r))] else []))"

definition boardBlocks :: "string \<Rightarrow> BoardMakefile \<Rightarrow> string list" where
  "boardBlocks MAKEFILE_HEADER mk =
     (let blocks = startBlocks MAKEFILE_HEADER;
          blocks = blocks @ [''BUILD_BROKEN_ELF_PREBUILT_PRODUCT_COPY_FILES := true''];
          blocks = (if (case abOtaPartitions mk of None \<Rightarrow> False | Some ps \<Rightarrow> ''vendor'' \<in> set ps)
                    then blocks @ [''BOARD_VENDORIMAGE_FILE_SYSTEM_TYPE := ext4''] else blocks);
          blocks = addContBlock blocks (Str ''AB_OTA_PARTITIONS'') (abOtaPartitions mk);
          blocks = (case boardInfo mk of
                      None \<Rightarrow> blocks
                    | Some info \<Rightarrow> blocks @ [''TARGET_BOARD_INFO_FILE := '' @ info])
      in case secontextResolutions mk of
           None \<Rightarrow> blocks
         | Some resolutions \<Rightarrow> foldl pushResolution blocks resolutions)"

definition serializeBoardMakefile :: "string \<Rightarrow> BoardMakefile \<Rightarrow> string" where
  "serializeBoardMakefile MAKEFILE_HEADER mk = finishBlocks (boardBlocks MAKEFILE_HEADER mk)"


section \<open>Properties of the containers\<close>

lemma mset_insert_by: "mset (insert_by cmp x ys) = add_mset x (mset ys)"
  by (induction ys) auto

lemma mset_sort_by: "mset (sort_by cmp xs) = mset xs"
  unfolding sort_by_def by (induction xs) (auto simp: mset_insert_by)

lemma set_sort_by: "set (sort_by cmp xs) = set xs"
  using mset_sort_by [of cmp xs] by (metis set_mset_mset)

lemma sorted_insert_by:
  assumes tot: "\<And>a b. cmp a b \<le> 0 \<or> cmp b a \<le> 0"
    and tr: "\<And>a b c. cmp a b \<le> 0 \<Longrightarrow> cmp b c \<le> 0 \<Longrightarrow> cmp a c \<le> 0"
  shows "sorted_wrt (\<lambda>a b. cmp a b \<le> 0) ys \<Longrightarrow>
         sorted_wrt (\<lambda>a b. cmp a b \<le> 0) (insert_by cmp x ys)"
proof (induction ys)
  case Nil
  then show ?case by simp
next
  case (Cons y ys)
  show ?case
  proof (cases "cmp x y \<le> 0")
    case True
    with Cons.prems show ?thesis using tr by auto
  next
    case False
    then have yx: "cmp y x \<le> 0" using tot by blast
    have "set (insert_by cmp x ys) = insert x (set ys)"
      using mset_insert_by [of cmp x ys] by (metis set_mset_add_mset_insert set_mset_mset)
    with False yx Cons show ?thesis by auto
  qed
qed

lemma sorted_sort_by:
  assumes tot: "\<And>a b. cmp a b \<le> 0 \<or> cmp b a \<le> 0"
    and tr: "\<And>a b c. cmp a b \<le> 0 \<Longrightarrow> cmp b c \<le> 0 \<Longrightarrow> cmp a c \<le> 0"
  shows "sorted_wrt (\<lambda>a b. cmp a b \<le> 0) (sort_by cmp xs)"
  unfolding sort_by_def
  by (induction xs) (auto intro: sorted_insert_by [OF tot tr])

lemma filter_insert_by_out:
  "\<not> P x \<Longrightarrow> filter P (insert_by cmp x ys) = filter P ys"
  by (induction ys) auto

text \<open>An element that is not greater than \<open>k\<close> passes only elements that are not
  equivalent to \<open>k\<close> on its way into the sorted list.\<close>

lemma filter_insert_by_in:
  assumes tr: "\<And>a b c. cmp a b \<le> 0 \<Longrightarrow> cmp b c \<le> 0 \<Longrightarrow> cmp a c \<le> 0"
    and x: "cmp x k \<le> 0"
  shows "filter (\<lambda>y. cmp k y \<le> 0 \<and> cmp y k \<le> 0) (insert_by cmp x ys) =
         filter (\<lambda>y. cmp k y \<le> 0 \<and> cmp y k \<le> 0) (x # ys)"
proof (induction ys)
  case Nil
  then show ?case by simp
next
  case (Cons y ys)
  show ?case
  proof (cases "cmp x y \<le> 0")
    case True
    then show ?thesis by simp
  next
    case False
    have "\<not> cmp k y \<le> 0"
    proof
      assume "cmp k y \<le> 0"
      with x have "cmp x y \<le> 0" by (rule tr)
      with False show False by simp
    qed
    with False Cons show ?thesis by simp
  qed
qed

lemma stable_sort_by:
  assumes tr: "\<And>a b c. cmp a b \<le> 0 \<Longrightarrow> cmp b c \<le> 0 \<Longrightarrow> cmp a c \<le> 0"
  shows "filter (\<lambda>y. cmp k y \<le> 0 \<and> cmp y k \<le> 0) (sort_by cmp xs) =
         filter (\<lambda>y. cmp k y \<le> 0 \<and> cmp y k \<le> 0) xs"
proof (induction xs)
  case Nil
  then show ?case by (simp add: sort_by_def)
next
  case (Cons x xs)
  have unf: "sort_by cmp (x # xs) = insert_by cmp x (sort_by cmp xs)"
    by (simp add: sort_by_def)
  show ?case
  proof (cases "cmp x k \<le> 0")
    case True
    have "filter (\<lambda>y. cmp k y \<le> 0 \<and> cmp y k \<le> 0) (insert_by cmp x (sort_by cmp xs)) =
          filter (\<lambda>y. cmp k y \<le> 0 \<and> cmp y k \<le> 0) (x # sort_by cmp xs)"
      using tr True by (rule filter_insert_by_in)
    then show ?thesis unfolding unf using Cons by simp
  next
    case False
    then show ?thesis unfolding unf using Cons by (simp add: filter_insert_by_out)
  qed
qed

lemma collate_total: "collate w a b \<le> 0 \<or> collate w b a \<le> 0"
  by (induction w a b rule: collate.induct) auto

lemma collate_Cons_le:
  "collate w (x # xs) (y # ys) \<le> 0 \<longleftrightarrow> w x < w y \<or> (w x = w y \<and> collate w xs ys \<le> 0)"
  by auto

lemma collate_trans: "collate w a b \<le> 0 \<Longrightarrow> collate w b c \<le> 0 \<Longrightarrow> collate w a c \<le> 0"
proof (induction a arbitrary: b c)
  case Nil
  then show ?case by (cases c) simp_all
next
  case (Cons x xs)
  from Cons.prems(1) obtain y ys where b: "b = y # ys" by (cases b) auto
  from Cons.prems(2) b obtain z zs where c: "c = z # zs" by (cases c) auto
  from Cons.prems(1) b have xy: "w x < w y \<or> (w x = w y \<and> collate w xs ys \<le> 0)"
    by (simp only: collate_Cons_le)
  from Cons.prems(2) b c have yz: "w y < w z \<or> (w y = w z \<and> collate w ys zs \<le> 0)"
    by (simp only: collate_Cons_le)
  from xy yz Cons.IH [of ys zs]
  have "w x < w z \<or> (w x = w z \<and> collate w xs zs \<le> 0)"
    by auto
  then show ?case unfolding c by (simp only: collate_Cons_le)
qed


section \<open>Properties of enumerateFiles\<close>

lemma keys_setEntries:
  "set (map_keys (setEntries mk part m fs)) = set (map_keys m) \<union> set fs"
  unfolding setEntries_def
  by (induction fs arbitrary: m) (auto simp: map_set_def map_keys_def dom_update)

lemma distinct_setEntries:
  "distinct (map_keys m) \<Longrightarrow> distinct (map_keys (setEntries mk part m fs))"
  unfolding setEntries_def
  by (induction fs arbitrary: m) (auto simp: map_set_def map_keys_def distinct_update)

lemma map_has_keys: "map_has m k \<longleftrightarrow> k \<in> set (map_keys m)"
  by (simp add: map_has_def map_keys_def map_of_eq_None_iff)

lemma keys_enumeratePartition_mono:
  "set (map_keys m) \<subseteq> set (map_keys (enumeratePartition lc listPart mk filters force customState stockSrc customSrc m part))"
  by (auto simp: enumeratePartition_def keys_setEntries split: option.splits)

lemma distinct_enumeratePartition:
  "distinct (map_keys m) \<Longrightarrow> distinct (map_keys (enumeratePartition lc listPart mk filters force customState stockSrc customSrc m part))"
  by (auto simp: enumeratePartition_def distinct_setEntries split: option.splits)

lemma keys_foldl_enumeratePartition_mono:
  "set (map_keys m) \<subseteq> set (map_keys (foldl (enumeratePartition lc listPart mk filters force customState stockSrc customSrc) m ps))"
proof (induction ps arbitrary: m)
  case Nil
  then show ?case by simp
next
  case (Cons p ps)
  show ?case
    using keys_enumeratePartition_mono [of m lc listPart mk filters force customState stockSrc customSrc p]
      Cons [of "enumeratePartition lc listPart mk filters force customState stockSrc customSrc m p"]
    by auto
qed

lemma distinct_foldl_enumeratePartition:
  "distinct (map_keys m) \<Longrightarrow> distinct (map_keys (foldl (enumeratePartition lc listPart mk filters force customState stockSrc customSrc) m ps))"
  by (induction ps arbitrary: m) (auto simp: distinct_enumeratePartition)

lemma forced_in_mergeForced:
  "f \<in> set filesRef \<Longrightarrow> filterValue force f \<Longrightarrow> f \<in> set (mergeForced lc (Some force) filesNew filesRef)"
  by (simp add: mergeForced_def set_sort_by filterValues_def)

lemma count_mergeForced:
  "count_list (mergeForced lc (Some force) filesNew filesRef) f =
   count_list (diffLists filesNew filesRef) f + count_list (filterValues force filesRef) f"
proof -
  have "count (mset (mergeForced lc (Some force) filesNew filesRef)) f =
        count (mset (diffLists filesNew filesRef @ filterValues force filesRef)) f"
    by (simp add: mergeForced_def mset_sort_by)
  then show ?thesis by (simp add: count_mset)
qed

lemma count_list_filter_distinct:
  "distinct xs \<Longrightarrow> count_list (filter P xs) f = (if f \<in> set xs \<and> P f then 1 else 0)"
  by (induction xs) auto

lemma foldl_enumeratePartition_has:
  assumes "part \<in> set ps"
    and "\<And>m. f \<in> set (map_keys (enumeratePartition lc listPart mk filters force customState stockSrc customSrc m part))"
  shows "f \<in> set (map_keys (foldl (enumeratePartition lc listPart mk filters force customState stockSrc customSrc) m ps))"
  using assms(1)
proof (induction ps arbitrary: m)
  case Nil
  then show ?case by simp
next
  case (Cons p ps)
  show ?case
  proof (cases "p = part")
    case True
    have "f \<in> set (map_keys (enumeratePartition lc listPart mk filters force customState stockSrc customSrc m part))"
      by (rule assms(2))
    with True show ?thesis
      using keys_foldl_enumeratePartition_mono [of "enumeratePartition lc listPart mk filters force customState stockSrc customSrc m part" lc listPart mk filters force customState stockSrc customSrc ps]
      by auto
  next
    case False
    with Cons.prems have "part \<in> set ps" by simp
    then show ?thesis using Cons.IH by simp
  qed
qed

text \<open>
  C1 (as amended). Every file of the stock list of a partition that matches a
  force-include pattern is in the merged list of that partition, whether or not the
  custom list has it, and is a key of \<open>namedEntries\<close> when \<open>enumerateFiles\<close> returns.
  \<open>namedEntries\<close> keeps every path under one key. In the merged list itself such a file
  is once when the custom list has it too (the stock list being free of duplicates);
  the merge pushes and sorts, it removes nothing.
\<close>

theorem enumerateFiles_force_include:
  assumes stock: "listPart part stockSrc filters = Some filesRef"
    and custom: "customFiles listPart filters customState customSrc part = Some filesNew"
    and parts: "part \<in> set partitions"
    and f: "f \<in> set filesRef"
    and forced: "filterValue force f"
  shows "f \<in> set (mergeForced lc (Some force) filesNew filesRef) \<and>
         map_has (enumerateFiles partitions lc listPart mk filters (Some force) namedEntries
                    customState stockSrc customSrc) f \<and>
         (distinct (map_keys namedEntries) \<longrightarrow>
            distinct (map_keys (enumerateFiles partitions lc listPart mk filters (Some force)
                        namedEntries customState stockSrc customSrc))) \<and>
         (distinct filesRef \<and> f \<in> set filesNew \<longrightarrow>
            count_list (mergeForced lc (Some force) filesNew filesRef) f = 1)"
proof (intro conjI impI)
  show m: "f \<in> set (mergeForced lc (Some force) filesNew filesRef)"
    using f forced by (rule forced_in_mergeForced)
  have "\<And>m. f \<in> set (map_keys (enumeratePartition lc listPart mk filters (Some force)
                 customState stockSrc customSrc m part))"
    using m by (simp add: enumeratePartition_def stock custom keys_setEntries)
  with parts show "map_has (enumerateFiles partitions lc listPart mk filters (Some force)
                     namedEntries customState stockSrc customSrc) f"
    unfolding map_has_keys enumerateFiles_def by (rule foldl_enumeratePartition_has)
next
  assume "distinct (map_keys namedEntries)"
  then show "distinct (map_keys (enumerateFiles partitions lc listPart mk filters (Some force)
                        namedEntries customState stockSrc customSrc))"
    unfolding enumerateFiles_def by (rule distinct_foldl_enumeratePartition)
next
  assume "distinct filesRef \<and> f \<in> set filesNew"
  then show "count_list (mergeForced lc (Some force) filesNew filesRef) f = 1"
    using f forced
    by (simp add: count_mergeForced diffLists_def filterValues_def count_list_filter_distinct)
qed

theorem enumerateFiles_force_include_witness:
  "''system/bin/b'' \<in> set (mergeForced (collate en_weight) (Some (\<lambda>f. f = ''system/bin/b''))
       [''system/bin/a'', ''system/bin/b''] [''system/bin/a'', ''system/bin/b'']) \<and>
   map_has (enumerateFiles [''system''] (collate en_weight)
       (\<lambda>p src (u::unit). if p = ''system'' then Some [''system/bin/a'', ''system/bin/b''] else None)
       (\<lambda>p c. (p, c)) () (Some (\<lambda>f. f = ''system/bin/b'')) [] None ''stock'' (Some ''custom''))
     ''system/bin/b'' \<and>
   count_list (mergeForced (collate en_weight) (Some (\<lambda>f. f = ''system/bin/b''))
       [''system/bin/a'', ''system/bin/b''] [''system/bin/a'', ''system/bin/b'']) ''system/bin/b'' = 1"
proof -
  let ?listPart = "\<lambda>p src (u::unit). if p = ''system'' then Some [''system/bin/a'', ''system/bin/b''] else None"
  have stock: "?listPart ''system'' ''stock'' () = Some [''system/bin/a'', ''system/bin/b'']"
    by simp
  have custom: "customFiles ?listPart () None (Some ''custom'') ''system'' =
                  Some [''system/bin/a'', ''system/bin/b'']"
    by (simp add: customFiles_def)
  have parts: "''system'' \<in> set [''system'']" by simp
  have f: "''system/bin/b'' \<in> set [''system/bin/a'', ''system/bin/b'']" by simp
  have forced: "filterValue (\<lambda>f. f = ''system/bin/b'') ''system/bin/b''"
    by (simp add: filterValue_def)
  show ?thesis
    using enumerateFiles_force_include [OF stock custom parts f forced,
        of "collate en_weight" "\<lambda>p c. (p, c)" "[]"]
    by simp
qed

text \<open>
  C1, the claim as stated fails: a forced file that the custom list does not have is in
  the diff and among the forced files, and the merged list has it twice.
\<close>

theorem mergeForced_duplicates_missing_forced_file:
  "mergeForced (collate en_weight) (Some (\<lambda>f. f = ''system/bin/b''))
     [''system/bin/a''] [''system/bin/a'', ''system/bin/b''] = [''system/bin/b'', ''system/bin/b'']"
  by (simp add: mergeForced_def diffLists_def filterValues_def filterValue_def sort_by_def)

text \<open>
  C7. A partition for which the stock root or the custom side has no listing leaves
  \<open>namedEntries\<close> as it is, and the whole enumeration is the enumeration of the
  partitions that both sides list. The function has no error result: nothing is raised.
\<close>

theorem enumerateFiles_skips_absent_partition:
  "(listPart part stockSrc filters = None \<or>
      customFiles listPart filters customState customSrc part = None \<longrightarrow>
      enumeratePartition lc listPart mk filters force customState stockSrc customSrc
        namedEntries part = namedEntries) \<and>
   enumerateFiles partitions lc listPart mk filters force namedEntries customState stockSrc customSrc =
   enumerateFiles
     (filter (\<lambda>p. listPart p stockSrc filters \<noteq> None \<and>
                   customFiles listPart filters customState customSrc p \<noteq> None) partitions)
     lc listPart mk filters force namedEntries customState stockSrc customSrc"
proof
  show "listPart part stockSrc filters = None \<or>
      customFiles listPart filters customState customSrc part = None \<longrightarrow>
      enumeratePartition lc listPart mk filters force customState stockSrc customSrc
        namedEntries part = namedEntries"
    by (auto simp: enumeratePartition_def split: option.splits)
next
  have skip: "\<And>m p. listPart p stockSrc filters = None \<or>
      customFiles listPart filters customState customSrc p = None \<Longrightarrow>
      enumeratePartition lc listPart mk filters force customState stockSrc customSrc m p = m"
    by (auto simp: enumeratePartition_def split: option.splits)
  show "enumerateFiles partitions lc listPart mk filters force namedEntries customState stockSrc customSrc =
   enumerateFiles
     (filter (\<lambda>p. listPart p stockSrc filters \<noteq> None \<and>
                   customFiles listPart filters customState customSrc p \<noteq> None) partitions)
     lc listPart mk filters force namedEntries customState stockSrc customSrc"
    unfolding enumerateFiles_def
  proof (induction partitions arbitrary: namedEntries)
    case Nil
    then show ?case by simp
  next
    case (Cons p ps)
    then show ?case using skip [of p namedEntries] by auto
  qed
qed

theorem enumerateFiles_skips_absent_partition_witness:
  "(\<lambda>p src (u::unit). if p = ''system'' then Some [''system/bin/a''] else None)
      ''vendor'' ''stock'' () = None \<and>
   enumeratePartition (collate en_weight)
      (\<lambda>p src (u::unit). if p = ''system'' then Some [''system/bin/a''] else None)
      (\<lambda>p c. (p, c)) () None None ''stock'' None [(''system/bin/a'', (''system'', ''system/bin/a''))]
      ''vendor'' = [(''system/bin/a'', (''system'', ''system/bin/a''))]"
  using enumerateFiles_skips_absent_partition
    [of "\<lambda>p src (u::unit). if p = ''system'' then Some [''system/bin/a''] else None"
        "''vendor''" "''stock''" "()" None None "collate en_weight" "\<lambda>p c. (p, c)" None
        "[(''system/bin/a'', (''system'', ''system/bin/a''))]" "[]"]
  by simp


section \<open>Properties of the sorted outputs\<close>

text \<open>
  C3 (as amended). The merged list of missing files (when force-include filters are
  given) and the packages of the device makefile are sorted by the stable sort of the
  host under the comparison \<^verbatim>\<open>localeCompare\<close> of the host's default locale: for a
  comparison that is total and transitive the result is ordered by it, has the elements
  pushed and no others, and keeps the elements that compare equal in the order in which
  they were pushed. It is a function of the input and of that comparison.
\<close>

theorem outputs_sorted_by_host_collation:
  assumes tot: "\<forall>a b. lc a b \<le> 0 \<or> lc b a \<le> 0"
    and tr: "\<forall>a b c. lc a b \<le> 0 \<and> lc b c \<le> 0 \<longrightarrow> lc a c \<le> 0"
  shows "sorted_wrt (\<lambda>a b. lc a b \<le> 0) (mergeForced lc (Some force) filesNew filesRef) \<and>
         mset (mergeForced lc (Some force) filesNew filesRef) =
           mset (diffLists filesNew filesRef) + mset (filterValues force filesRef) \<and>
         filter (\<lambda>y. lc k y \<le> 0 \<and> lc y k \<le> 0) (mergeForced lc (Some force) filesNew filesRef) =
           filter (\<lambda>y. lc k y \<le> 0 \<and> lc y k \<le> 0)
             (diffLists filesNew filesRef @ filterValues force filesRef) \<and>
         (\<exists>sorted. addBuildPackages lc (Some pkgs) buildPkgs = Inr sorted \<and>
            sorted_wrt (\<lambda>a b. lc a b \<le> 0) sorted \<and>
            mset sorted = mset pkgs + mset buildPkgs \<and>
            filter (\<lambda>y. lc k y \<le> 0 \<and> lc y k \<le> 0) sorted =
              filter (\<lambda>y. lc k y \<le> 0 \<and> lc y k \<le> 0) (pkgs @ buildPkgs))"
proof -
  have tot': "\<And>a b. lc a b \<le> 0 \<or> lc b a \<le> 0" using tot by blast
  have tr': "\<And>a b c. lc a b \<le> 0 \<Longrightarrow> lc b c \<le> 0 \<Longrightarrow> lc a c \<le> 0" using tr by blast
  have srt: "\<And>xs. sorted_wrt (\<lambda>a b. lc a b \<le> 0) (sort_by lc xs)"
    using tot' tr' by (rule sorted_sort_by)
  have stb: "\<And>xs. filter (\<lambda>y. lc k y \<le> 0 \<and> lc y k \<le> 0) (sort_by lc xs) =
                   filter (\<lambda>y. lc k y \<le> 0 \<and> lc y k \<le> 0) xs"
    using tr' by (rule stable_sort_by)
  have m: "mergeForced lc (Some force) filesNew filesRef =
           sort_by lc (diffLists filesNew filesRef @ filterValues force filesRef)"
    by (simp add: mergeForced_def)
  have p: "addBuildPackages lc (Some pkgs) buildPkgs = Inr (sort_by lc (pkgs @ buildPkgs))"
    by (simp add: addBuildPackages_def)
  show ?thesis
    unfolding m p using srt stb by (simp add: mset_sort_by)
qed

theorem outputs_sorted_by_host_collation_witness:
  "sorted_wrt (\<lambda>a b. collate en_weight a b \<le> 0)
     (mergeForced (collate en_weight) (Some (\<lambda>f. f = ''system/bin/a''))
        [''system/bin/a''] [''system/bin/b'', ''system/bin/a''])"
proof -
  have tot: "\<forall>a b. collate en_weight a b \<le> 0 \<or> collate en_weight b a \<le> 0"
    by (simp add: collate_total)
  have tr: "\<forall>a b c. collate en_weight a b \<le> 0 \<and> collate en_weight b c \<le> 0 \<longrightarrow>
              collate en_weight a c \<le> 0"
    by (blast intro: collate_trans)
  show ?thesis
    using outputs_sorted_by_host_collation [OF tot tr,
        of "\<lambda>f. f = ''system/bin/a''" "[''system/bin/a'']" "[''system/bin/b'', ''system/bin/a'']"]
    by blast
qed

text \<open>
  C3, the claim as stated fails: the comparison is not independent of the locale. The
  same stock list is merged in one order under a collation with z last and in another
  under the Estonian one.
\<close>

theorem merged_list_differs_between_locales:
  "mergeForced (collate en_weight) (Some (\<lambda>f. False)) []
     [''vendor/lib/libtls.so'', ''vendor/lib/libz.so'']
   \<noteq> mergeForced (collate et_weight) (Some (\<lambda>f. False)) []
     [''vendor/lib/libtls.so'', ''vendor/lib/libz.so'']"
  by (simp add: mergeForced_def diffLists_def filterValues_def filterValue_def sort_by_def
      en_weight_def et_weight_def)


section \<open>Properties of the source contexts\<close>

lemma map_of_foldl_map_set:
  "map_of (foldl (\<lambda>acc' (ctx, source). map_set acc' ctx source) acc es) =
   map_of acc ++ map_of (rev es)"
proof (induction es arbitrary: acc)
  case Nil
  then show ?case by simp
next
  case (Cons e es)
  obtain k v where e: "e = (k, v)" by (cases e)
  have "map_of (foldl (\<lambda>acc' (ctx, source). map_set acc' ctx source) acc (e # es)) =
        map_of (map_set acc k v) ++ map_of (rev es)"
    unfolding e by (simp add: Cons)
  also have "map_of (map_set acc k v) = map_of acc ++ [k \<mapsto> v]"
    by (simp add: map_set_def update_conv')
  also have "(map_of acc ++ [k \<mapsto> v]) ++ map_of (rev es) = map_of acc ++ map_of (rev (e # es))"
    unfolding e by simp
  finally show ?case .
qed

lemma map_of_sourceContexts_snoc:
  "map_of (sourceContexts parse (ds @ [d])) =
   map_of (sourceContexts parse ds) ++ map_of (rev (parse d))"
  by (simp add: sourceContexts_def map_of_foldl_map_set)

lemma sourceContexts_last_definition:
  assumes "map_of (rev (parse B)) L = Some src"
    and "\<forall>d \<in> set post. map_of (rev (parse d)) L = None"
  shows "map_of (sourceContexts parse (pre @ B # post)) L = Some src"
  using assms(2)
proof (induction post rule: rev_induct)
  case Nil
  have "map_of (sourceContexts parse (pre @ [B])) L = Some src"
    unfolding map_of_sourceContexts_snoc using assms(1) by (simp add: map_add_def)
  then show ?case by simp
next
  case (snoc d post)
  have eq: "pre @ B # post @ [d] = (pre @ B # post) @ [d]" by simp
  from snoc.prems have none: "map_of (rev (parse d)) L = None" by simp
  from snoc have "map_of (sourceContexts parse (pre @ B # post)) L = Some src" by simp
  then show ?case
    unfolding eq map_of_sourceContexts_snoc using none by (simp add: map_add_def)
qed

lemma map_of_rev_distinct:
  "distinct (map fst es) \<Longrightarrow> map_of (rev es) = map_of es"
  by (subst map_of_inject_set) (simp_all add: rev_map [symmetric])

text \<open>
  C2. Let \<open>parse\<close> give the contexts of every configured directory and \<open>walk\<close> give the
  same entries of every directory in any other order of traversal. If the directory \<open>B\<close>
  defines the label \<open>L\<close> and no directory configured after \<open>B\<close> does, the combined table
  maps \<open>L\<close> to the definition of \<open>B\<close>, whatever the directories configured before \<open>B\<close>
  define.
\<close>

theorem sourceContexts_last_write_wins:
  assumes maps: "\<forall>d \<in> set (pre @ B # post).
                   distinct (map_keys (parse d)) \<and> distinct (map_keys (walk d)) \<and>
                   set (walk d) = set (parse d)"
    and defined: "map_get (parse B) L = Some src"
    and later: "\<forall>d \<in> set post. \<not> map_has (parse d) L"
  shows "map_get (sourceContexts walk (pre @ B # post)) L = Some src"
proof -
  have same: "map_of (rev (walk d)) = map_of (parse d)" if "d \<in> set (pre @ B # post)" for d
  proof -
    from that maps have d: "distinct (map fst (parse d))" "distinct (map fst (walk d))"
      "set (walk d) = set (parse d)"
      by (auto simp: map_keys_def)
    have "map_of (walk d) = map_of (parse d)"
      using d by (simp add: map_of_inject_set)
    then show ?thesis using d(2) by (simp add: map_of_rev_distinct)
  qed
  have B: "map_of (rev (walk B)) L = Some src"
    using same [of B] defined by (simp add: map_get_def)
  have post: "\<forall>d \<in> set post. map_of (rev (walk d)) L = None"
    using same later by (simp add: map_has_def)
  show ?thesis
    unfolding map_get_def using B post by (rule sourceContexts_last_definition)
qed

theorem sourceContexts_last_write_wins_witness:
  "map_get ((\<lambda>d. if d = ''dirA'' then [(''ctxA'', ''dirA/fileA'')]
                  else [(''ctxA'', ''dirB/fileA2''), (''ctxB'', ''dirB/fileB'')]) ''dirB'') ''ctxA''
     = Some ''dirB/fileA2'' \<and>
   map_get (sourceContexts
              (\<lambda>d. if d = ''dirA'' then [(''ctxA'', ''dirA/fileA'')]
                    else [(''ctxB'', ''dirB/fileB''), (''ctxA'', ''dirB/fileA2'')])
              [''dirA'', ''dirB'']) ''ctxA'' = Some ''dirB/fileA2''"
proof -
  let ?parse = "\<lambda>d. if d = ''dirA'' then [(''ctxA'', ''dirA/fileA'')]
                  else [(''ctxA'', ''dirB/fileA2''), (''ctxB'', ''dirB/fileB'')]"
  let ?walk = "\<lambda>d. if d = ''dirA'' then [(''ctxA'', ''dirA/fileA'')]
                    else [(''ctxB'', ''dirB/fileB''), (''ctxA'', ''dirB/fileA2'')]"
  have maps: "\<forall>d \<in> set ([''dirA''] @ ''dirB'' # []).
                   distinct (map_keys (?parse d)) \<and> distinct (map_keys (?walk d)) \<and>
                   set (?walk d) = set (?parse d)"
    by (auto simp: map_keys_def)
  have defined: "map_get (?parse ''dirB'') ''ctxA'' = Some ''dirB/fileA2''"
    by (simp add: map_get_def)
  have later: "\<forall>d \<in> set []. \<not> map_has (?parse d) ''ctxA''" by simp
  show ?thesis
    using defined sourceContexts_last_write_wins [OF maps defined later] by simp
qed


section \<open>Properties of resolveOverrides\<close>

lemma replace_prefix: "replace pat [] (pat @ k) = k"
proof (cases "pat @ k")
  case Nil
  then show ?thesis by simp
next
  case (Cons a list)
  have "prefix pat (a # list)" unfolding Cons [symmetric] by simp
  then have "replace pat [] (a # list) = drop (length pat) (a # list)" by simp
  also have "\<dots> = k" unfolding Cons [symmetric] by simp
  finally show ?thesis unfolding Cons .
qed

lemma foldl_map_delete:
  "foldl (\<lambda>m path. map_delete m (g path)) m ps = filter (\<lambda>(k, v). k \<notin> g ` set ps) m"
proof (induction ps arbitrary: m)
  case Nil
  then show ?case by simp
next
  case (Cons p ps)
  have "filter (\<lambda>(k, v). k \<notin> g ` set ps) (map_delete m (g p)) =
        filter (\<lambda>(k, v). k \<notin> g ` set (p # ps)) m"
    by (induction m) (auto simp: map_delete_def)
  then show ?case by (simp add: Cons)
qed

lemma resolveOverrides_eq:
  assumes "findOverride (map (\<lambda>c. (''out/target/product/'' @ device_name config @ ''/'') @ c)
                           (map_keys namedEntries))
             (removeSelf (parseModuleInfo ((''out/target/product/'' @ device_name config @ ''/'') @
                            ''module-info.json'')) (proprietary dirs)) = (builtModules, builtPaths)"
  shows "resolveOverrides parseModuleInfo removeSelf findOverride config dirs namedEntries =
         (builtModules,
          filter (\<lambda>(k, v). k \<notin> replace (''out/target/product/'' @ device_name config @ ''/'') [] `
                                   set builtPaths) namedEntries)"
  unfolding resolveOverrides_def Let_def assms
  by (simp only: split_conv foldl_map_delete)

text \<open>
  C8. When the override matching returns the modules \<open>builtModules\<close> and the paths
  \<open>builtPaths\<close>, \<open>resolveOverrides\<close> returns these modules and leaves \<open>namedEntries\<close>
  without the keys that are a built path with the target prefix replaced by nothing;
  every other entry stays, with its value and in its place. When the built paths are
  among the candidates, these keys are the keys whose target path is built. The caller
  hands the returned modules on as build packages: the packages of the device makefile
  are then the packages it had, the returned modules and the overlay packages, sorted,
  so every returned module is among them (pushing on a missing packages array is the
  \<^verbatim>\<open>TypeError\<close> of the source).
\<close>

theorem resolveOverrides_removes_built_paths:
  assumes targetPrefix: "targetPrefix = ''out/target/product/'' @ device_name config @ ''/''"
    and found: "findOverride (map (\<lambda>c. targetPrefix @ c) (map_keys namedEntries))
                  (removeSelf (parseModuleInfo (targetPrefix @ ''module-info.json''))
                     (proprietary dirs)) = (builtModules, builtPaths)"
  shows "resolveOverrides parseModuleInfo removeSelf findOverride config dirs namedEntries =
           (builtModules,
            filter (\<lambda>(k, v). k \<notin> replace targetPrefix [] ` set builtPaths) namedEntries) \<and>
         (set builtPaths \<subseteq> (\<lambda>c. targetPrefix @ c) ` set (map_keys namedEntries) \<longrightarrow>
            filter (\<lambda>(k, v). k \<notin> replace targetPrefix [] ` set builtPaths) namedEntries =
            filter (\<lambda>(k, v). targetPrefix @ k \<notin> set builtPaths) namedEntries) \<and>
         emitOverrides lc parseModuleInfo removeSelf findOverride config dirs namedEntries
             overlayPkgs packages =
           ((case packages of
               None \<Rightarrow> Inl TypeError
             | Some pkgs \<Rightarrow> Inr (sort_by lc (pkgs @ builtModules @ overlayPkgs))),
            filter (\<lambda>(k, v). k \<notin> replace targetPrefix [] ` set builtPaths) namedEntries) \<and>
         set builtModules \<subseteq> set (sort_by lc (pkgs @ builtModules @ overlayPkgs)) \<and>
         mset (sort_by lc (pkgs @ builtModules @ overlayPkgs)) =
           mset pkgs + mset builtModules + mset overlayPkgs"
proof (intro conjI impI)
  show "resolveOverrides parseModuleInfo removeSelf findOverride config dirs namedEntries =
           (builtModules,
            filter (\<lambda>(k, v). k \<notin> replace targetPrefix [] ` set builtPaths) namedEntries)"
    using found unfolding targetPrefix by (rule resolveOverrides_eq)
next
  assume sub: "set builtPaths \<subseteq> (\<lambda>c. targetPrefix @ c) ` set (map_keys namedEntries)"
  have "k \<in> replace targetPrefix [] ` set builtPaths \<longleftrightarrow> targetPrefix @ k \<in> set builtPaths" for k
  proof
    assume "k \<in> replace targetPrefix [] ` set builtPaths"
    then obtain p where p: "p \<in> set builtPaths" "k = replace targetPrefix [] p" by blast
    with sub obtain c where "p = targetPrefix @ c" by blast
    with p show "targetPrefix @ k \<in> set builtPaths" by (simp add: replace_prefix)
  next
    assume "targetPrefix @ k \<in> set builtPaths"
    then have "replace targetPrefix [] (targetPrefix @ k) \<in> replace targetPrefix [] ` set builtPaths"
      by (rule imageI)
    then show "k \<in> replace targetPrefix [] ` set builtPaths" by (simp add: replace_prefix)
  qed
  then show "filter (\<lambda>(k, v). k \<notin> replace targetPrefix [] ` set builtPaths) namedEntries =
            filter (\<lambda>(k, v). targetPrefix @ k \<notin> set builtPaths) namedEntries"
    by simp
next
  have "resolveOverrides parseModuleInfo removeSelf findOverride config dirs namedEntries =
           (builtModules,
            filter (\<lambda>(k, v). k \<notin> replace targetPrefix [] ` set builtPaths) namedEntries)"
    using found unfolding targetPrefix by (rule resolveOverrides_eq)
  then show "emitOverrides lc parseModuleInfo removeSelf findOverride config dirs namedEntries
             overlayPkgs packages =
           ((case packages of
               None \<Rightarrow> Inl TypeError
             | Some pkgs \<Rightarrow> Inr (sort_by lc (pkgs @ builtModules @ overlayPkgs))),
            filter (\<lambda>(k, v). k \<notin> replace targetPrefix [] ` set builtPaths) namedEntries)"
    unfolding emitOverrides_def
    by (simp add: addBuildPackages_def split: option.splits)
next
  show "set builtModules \<subseteq> set (sort_by lc (pkgs @ builtModules @ overlayPkgs))"
    by (auto simp: set_sort_by)
next
  show "mset (sort_by lc (pkgs @ builtModules @ overlayPkgs)) =
           mset pkgs + mset builtModules + mset overlayPkgs"
    by (simp add: mset_sort_by)
qed

theorem resolveOverrides_removes_built_paths_witness:
  "emitOverrides (collate en_weight)
     (\<lambda>path. [(''libbar'', \<lparr>installedPaths = [''out/target/product/raven/vendor/lib/libbar.so''],
                            moduleClass = ''SHARED_LIBRARIES'', owningDir = ''hardware/bar''\<rparr>)])
     removeSelfModules findOverrideModules
     \<lparr>device_name = ''raven'', platform_sepolicy_dirs = [], filters_props = (\<lambda>k. True),
      filters_partitions = (\<lambda>k. True), filters_sepolicy_dirs = (\<lambda>k. True)\<rparr>
     \<lparr>out = ''vendor/google_devices/raven'', proprietary = ''vendor/google_devices/raven/proprietary'',
      firmware = ''vendor/google_devices/raven/firmware'',
      sepolicy = ''vendor/google_devices/raven/sepolicy''\<rparr>
     [(''vendor/lib/libbar.so'', 1::nat), (''vendor/lib/libfoo.so'', 2)]
     [''OverlayFoo''] (Some [''android.hardware.x''])
   = (Inr [''OverlayFoo'', ''android.hardware.x'', ''libbar''], [(''vendor/lib/libfoo.so'', 2)]) \<and>
   resolveOverrides
     (\<lambda>path. [(''libbar'', \<lparr>installedPaths = [''out/target/product/raven/vendor/lib/libbar.so''],
                            moduleClass = ''SHARED_LIBRARIES'', owningDir = ''hardware/bar''\<rparr>)])
     removeSelfModules findOverrideModules
     \<lparr>device_name = ''raven'', platform_sepolicy_dirs = [], filters_props = (\<lambda>k. True),
      filters_partitions = (\<lambda>k. True), filters_sepolicy_dirs = (\<lambda>k. True)\<rparr>
     \<lparr>out = ''vendor/google_devices/raven'', proprietary = ''vendor/google_devices/raven/proprietary'',
      firmware = ''vendor/google_devices/raven/firmware'',
      sepolicy = ''vendor/google_devices/raven/sepolicy''\<rparr>
     [(''vendor/lib/libbar.so'', 1::nat), (''vendor/lib/libfoo.so'', 2)]
   = ([''libbar''], [(''vendor/lib/libfoo.so'', 2)])"
proof -
  let ?config = "\<lparr>device_name = ''raven'', platform_sepolicy_dirs = [], filters_props = (\<lambda>k. True),
      filters_partitions = (\<lambda>k. True), filters_sepolicy_dirs = (\<lambda>k. True)\<rparr>"
  let ?dirs = "\<lparr>out = ''vendor/google_devices/raven'', proprietary = ''vendor/google_devices/raven/proprietary'',
      firmware = ''vendor/google_devices/raven/firmware'',
      sepolicy = ''vendor/google_devices/raven/sepolicy''\<rparr>"
  let ?info = "\<lambda>path::string. [(''libbar'', \<lparr>installedPaths = [''out/target/product/raven/vendor/lib/libbar.so''],
                            moduleClass = ''SHARED_LIBRARIES'', owningDir = ''hardware/bar''\<rparr>)]"
  let ?entries = "[(''vendor/lib/libbar.so'', 1::nat), (''vendor/lib/libfoo.so'', 2)]"
  have targetPrefix: "''out/target/product/raven/'' = ''out/target/product/'' @ device_name ?config @ ''/''"
    by simp
  have found: "findOverrideModules (map (\<lambda>c. ''out/target/product/raven/'' @ c) (map_keys ?entries))
                  (removeSelfModules (?info (''out/target/product/raven/'' @ ''module-info.json''))
                     (proprietary ?dirs)) = ([''libbar''], [''out/target/product/raven/vendor/lib/libbar.so''])"
    by (simp add: findOverrideModules_def removeSelfModules_def map_keys_def)
  have sorted: "sort_by (collate en_weight) [''android.hardware.x'', ''libbar'', ''OverlayFoo''] =
                [''OverlayFoo'', ''android.hardware.x'', ''libbar'']"
    by (simp add: sort_by_def en_weight_def)
  show ?thesis
    using resolveOverrides_removes_built_paths
      [where targetPrefix = "''out/target/product/raven/''" and config = ?config
         and findOverride = findOverrideModules and removeSelf = removeSelfModules
         and parseModuleInfo = ?info and dirs = ?dirs and namedEntries = ?entries
         and builtModules = "[''libbar'']"
         and builtPaths = "[''out/target/product/raven/vendor/lib/libbar.so'']"
         and overlayPkgs = "[''OverlayFoo'']" and packages = "Some [''android.hardware.x'']"
         and pkgs = "[''android.hardware.x'']" and lc = "collate en_weight",
       OF targetPrefix found]
      sorted
    by simp
qed

lemma keys_removeSelfModules:
  "(name, m) \<in> set (removeSelfModules modulesMap dir) \<longleftrightarrow>
   (name, m) \<in> set modulesMap \<and> owningDir m \<noteq> dir"
  by (auto simp: removeSelfModules_def)

lemma fst_findOverrideModules:
  "set (fst (findOverrideModules paths modulesMap)) \<subseteq> fst ` set modulesMap"
  by (auto simp: findOverrideModules_def)

lemma fst_resolveOverrides:
  "fst (resolveOverrides parseModuleInfo removeSelf findOverride config dirs namedEntries) =
   fst (findOverride
          (map (\<lambda>c. (''out/target/product/'' @ device_name config @ ''/'') @ c) (map_keys namedEntries))
          (removeSelf (parseModuleInfo ((''out/target/product/'' @ device_name config @ ''/'') @
                            ''module-info.json'')) (proprietary dirs)))"
  unfolding resolveOverrides_def Let_def
  by (simp only: split_def fst_conv)

text \<open>
  C4. A module of \<^verbatim>\<open>module-info.json\<close> that is owned by the tool's own proprietary
  directory is not in the map that the override matching receives, and is not among the
  modules that \<open>resolveOverrides\<close> returns.
\<close>

theorem self_modules_never_override:
  assumes info: "modulesMap =
                   parseModuleInfo (''out/target/product/'' @ device_name config @ ''/module-info.json'')"
    and keys: "distinct (map_keys modulesMap)"
    and self: "map_get modulesMap name = Some m"
    and own: "owningDir m = proprietary dirs"
  shows "\<not> map_has (removeSelfModules modulesMap (proprietary dirs)) name \<and>
         name \<notin> set (fst (resolveOverrides parseModuleInfo removeSelfModules findOverrideModules
                             config dirs namedEntries))"
proof -
  have gone: "name \<notin> fst ` set (removeSelfModules modulesMap (proprietary dirs))"
  proof
    assume "name \<in> fst ` set (removeSelfModules modulesMap (proprietary dirs))"
    then obtain m' where m': "(name, m') \<in> set (removeSelfModules modulesMap (proprietary dirs))"
      by auto
    then have in_map: "(name, m') \<in> set modulesMap" and other: "owningDir m' \<noteq> proprietary dirs"
      by (simp_all add: keys_removeSelfModules)
    from keys in_map have "map_of modulesMap name = Some m'"
      by (simp add: map_keys_def)
    with self have "m' = m" by (simp add: map_get_def)
    with other own show False by simp
  qed
  have "\<not> map_has (removeSelfModules modulesMap (proprietary dirs)) name"
    using gone by (simp add: map_has_def map_of_eq_None_iff)
  moreover have "name \<notin> set (fst (resolveOverrides parseModuleInfo removeSelfModules
                             findOverrideModules config dirs namedEntries))"
    unfolding fst_resolveOverrides
    using gone fst_findOverrideModules info by fastforce
  ultimately show ?thesis by simp
qed

theorem self_modules_never_override_witness:
  "''libfoo'' \<notin> set (fst (resolveOverrides
     (\<lambda>path. [(''libfoo'', \<lparr>installedPaths = [''out/target/product/raven/vendor/lib/libfoo.so''],
                            moduleClass = ''SHARED_LIBRARIES'',
                            owningDir = ''vendor/google_devices/raven/proprietary''\<rparr>),
               (''libbar'', \<lparr>installedPaths = [''out/target/product/raven/vendor/lib/libbar.so''],
                            moduleClass = ''SHARED_LIBRARIES'', owningDir = ''hardware/bar''\<rparr>)])
     removeSelfModules findOverrideModules
     \<lparr>device_name = ''raven'', platform_sepolicy_dirs = [], filters_props = (\<lambda>k. True),
      filters_partitions = (\<lambda>k. True), filters_sepolicy_dirs = (\<lambda>k. True)\<rparr>
     \<lparr>out = ''vendor/google_devices/raven'', proprietary = ''vendor/google_devices/raven/proprietary'',
      firmware = ''vendor/google_devices/raven/firmware'',
      sepolicy = ''vendor/google_devices/raven/sepolicy''\<rparr>
     [(''vendor/lib/libbar.so'', 1::nat), (''vendor/lib/libfoo.so'', 2)]))"
proof -
  let ?config = "\<lparr>device_name = ''raven'', platform_sepolicy_dirs = [], filters_props = (\<lambda>k. True),
      filters_partitions = (\<lambda>k. True), filters_sepolicy_dirs = (\<lambda>k. True)\<rparr>"
  let ?dirs = "\<lparr>out = ''vendor/google_devices/raven'', proprietary = ''vendor/google_devices/raven/proprietary'',
      firmware = ''vendor/google_devices/raven/firmware'',
      sepolicy = ''vendor/google_devices/raven/sepolicy''\<rparr>"
  let ?foo = "\<lparr>installedPaths = [''out/target/product/raven/vendor/lib/libfoo.so''],
                            moduleClass = ''SHARED_LIBRARIES'',
                            owningDir = ''vendor/google_devices/raven/proprietary''\<rparr>"
  let ?map = "[(''libfoo'', ?foo),
               (''libbar'', \<lparr>installedPaths = [''out/target/product/raven/vendor/lib/libbar.so''],
                            moduleClass = ''SHARED_LIBRARIES'', owningDir = ''hardware/bar''\<rparr>)]"
  let ?info = "\<lambda>path::string. ?map"
  have info: "?map = ?info (''out/target/product/'' @ device_name ?config @ ''/module-info.json'')"
    by simp
  have keys: "distinct (map_keys ?map)" by (simp add: map_keys_def)
  have self: "map_get ?map ''libfoo'' = Some ?foo" by (simp add: map_get_def)
  have own: "owningDir ?foo = proprietary ?dirs" by simp
  show ?thesis
    using self_modules_never_override
      [where modulesMap = ?map and parseModuleInfo = ?info and config = ?config
         and name = "''libfoo''" and m = ?foo and dirs = ?dirs
         and namedEntries = "[(''vendor/lib/libbar.so'', 1::nat), (''vendor/lib/libfoo.so'', 2)]",
       OF info keys self own]
    by simp
qed


section \<open>Properties of resolveSepolicyDirs\<close>

lemma map_get_map_set: "map_get (map_set m k v) k' = (if k' = k then Some v else map_get m k')"
  by (simp add: map_get_def map_set_def update_conv')

lemma map_keys_map_set_has: "map_has m k \<Longrightarrow> map_keys (map_set m k v) = map_keys m"
  by (auto simp: map_has_def map_keys_def map_set_def update_keys map_of_eq_None_iff)

text \<open>
  C5 (as amended). When the resolutions of the context diffs have an entry for the
  partition vendor, the returned resolutions have the tool's own sepolicy directory
  appended at the end of that entry's directories. When they have no such entry, they
  are returned as they are. The other partitions and the keys are the same in both
  cases.
\<close>

theorem resolveSepolicyDirs_vendor_injection:
  assumes resolved: "ctxResolutions =
      resolvePartContextDiffs
        (diffPartContexts
           (case customState of Some st \<Rightarrow> partitionSecontexts st | None \<Rightarrow> parsePartContexts customSrc)
           (parsePartContexts stockSrc))
        (sourceContexts parseContextsRecursive (platform_sepolicy_dirs config))
        (filters_sepolicy_dirs config)"
    and returned: "result = resolveSepolicyDirs parsePartContexts parseContextsRecursive
        diffPartContexts resolvePartContextDiffs config customState dirs stockSrc customSrc"
  shows "(\<forall>r. map_get ctxResolutions ''vendor'' = Some r \<longrightarrow>
            map_get result ''vendor'' = Some (r\<lparr>sepolicyDirs := sepolicyDirs r @ [sepolicy dirs]\<rparr>)) \<and>
         (map_get ctxResolutions ''vendor'' = None \<longrightarrow> result = ctxResolutions) \<and>
         (\<forall>p. p \<noteq> ''vendor'' \<longrightarrow> map_get result p = map_get ctxResolutions p) \<and>
         map_keys result = map_keys ctxResolutions"
proof -
  have result: "result = addApexLabels dirs ctxResolutions"
    unfolding returned resolved resolveSepolicyDirs_def Let_def ..
  show ?thesis
  proof (cases "map_get ctxResolutions ''vendor''")
    case None
    then have "result = ctxResolutions"
      unfolding result by (simp add: addApexLabels_def map_has_def map_get_def)
    with None show ?thesis by simp
  next
    case (Some r)
    then have has: "map_has ctxResolutions ''vendor''" by (simp add: map_has_def map_get_def)
    have "result = map_set ctxResolutions ''vendor'' (r\<lparr>sepolicyDirs := sepolicyDirs r @ [sepolicy dirs]\<rparr>)"
      unfolding result using Some has by (simp add: addApexLabels_def)
    then show ?thesis
      using Some has by (simp add: map_get_map_set map_keys_map_set_has)
  qed
qed

theorem resolveSepolicyDirs_vendor_injection_witness:
  "map_get (resolveSepolicyDirs (\<lambda>src. []) (\<lambda>dir. []) (\<lambda>custom stock. ())
       (\<lambda>diffs source filters.
          [(''system'', \<lparr>sepolicyDirs = [], missingContexts = [''ctxC'']\<rparr>),
           (''vendor'', \<lparr>sepolicyDirs = [''hardware/google/pixel-sepolicy''], missingContexts = []\<rparr>)])
       \<lparr>device_name = ''raven'', platform_sepolicy_dirs = [], filters_props = (\<lambda>k. True),
        filters_partitions = (\<lambda>k. True), filters_sepolicy_dirs = (\<lambda>k. True)\<rparr>
       None
       \<lparr>out = ''vendor/google_devices/raven'', proprietary = ''vendor/google_devices/raven/proprietary'',
        firmware = ''vendor/google_devices/raven/firmware'',
        sepolicy = ''vendor/google_devices/raven/sepolicy''\<rparr>
       ''stock'' ''custom'') ''vendor''
   = Some \<lparr>sepolicyDirs = [''hardware/google/pixel-sepolicy'', ''vendor/google_devices/raven/sepolicy''],
           missingContexts = []\<rparr>"
proof -
  let ?res = "[(''system'', \<lparr>sepolicyDirs = [], missingContexts = [''ctxC'']\<rparr>),
           (''vendor'', \<lparr>sepolicyDirs = [''hardware/google/pixel-sepolicy''], missingContexts = []\<rparr>)]"
  let ?resolve = "\<lambda>(diffs::unit) (source::SelinuxContexts) (filters::Filters). ?res"
  let ?config = "\<lparr>device_name = ''raven'', platform_sepolicy_dirs = [], filters_props = (\<lambda>k. True),
        filters_partitions = (\<lambda>k. True), filters_sepolicy_dirs = (\<lambda>k. True)\<rparr>"
  let ?dirs = "\<lparr>out = ''vendor/google_devices/raven'', proprietary = ''vendor/google_devices/raven/proprietary'',
        firmware = ''vendor/google_devices/raven/firmware'',
        sepolicy = ''vendor/google_devices/raven/sepolicy''\<rparr>"
  let ?parse = "\<lambda>src::string. [] :: (string, SelinuxContexts) js_map"
  let ?rec = "\<lambda>dir::string. [] :: SelinuxContexts"
  let ?diff = "\<lambda>(custom::(string, SelinuxContexts) js_map) (stock::(string, SelinuxContexts) js_map). ()"
  have resolved: "?res = ?resolve
        (?diff (case None of Some st \<Rightarrow> partitionSecontexts st | None \<Rightarrow> ?parse ''custom'')
           (?parse ''stock''))
        (sourceContexts ?rec (platform_sepolicy_dirs ?config))
        (filters_sepolicy_dirs ?config)"
    by simp
  have vendor: "map_get ?res ''vendor'' =
      Some \<lparr>sepolicyDirs = [''hardware/google/pixel-sepolicy''], missingContexts = []\<rparr>"
    by (simp add: map_get_def)
  show ?thesis
    using vendor resolveSepolicyDirs_vendor_injection
      [where ctxResolutions = ?res and resolvePartContextDiffs = ?resolve
         and diffPartContexts = ?diff and parsePartContexts = ?parse
         and parseContextsRecursive = ?rec and config = ?config and customState = None
         and dirs = ?dirs and stockSrc = "''stock''" and customSrc = "''custom''",
       OF resolved refl]
    by simp
qed

text \<open>
  C5, the claim as stated fails: resolutions without an entry for vendor come back
  unchanged, so no vendor directories receive the injected directory.
\<close>

theorem resolveSepolicyDirs_without_vendor_injects_nothing:
  "resolveSepolicyDirs (\<lambda>src. []) (\<lambda>dir. []) (\<lambda>custom stock. ())
       (\<lambda>diffs source filters.
          [(''system'', \<lparr>sepolicyDirs = [''system/sepolicy/public''], missingContexts = [''ctxC'']\<rparr>)])
       \<lparr>device_name = ''raven'', platform_sepolicy_dirs = [], filters_props = (\<lambda>k. True),
        filters_partitions = (\<lambda>k. True), filters_sepolicy_dirs = (\<lambda>k. True)\<rparr>
       None
       \<lparr>out = ''vendor/google_devices/raven'', proprietary = ''vendor/google_devices/raven/proprietary'',
        firmware = ''vendor/google_devices/raven/firmware'',
        sepolicy = ''vendor/google_devices/raven/sepolicy''\<rparr>
       ''stock'' ''custom''
   = [(''system'', \<lparr>sepolicyDirs = [''system/sepolicy/public''], missingContexts = [''ctxC'']\<rparr>)]"
  by (simp add: resolveSepolicyDirs_def addApexLabels_def map_has_def)


section \<open>Properties of extractProps\<close>

text \<open>
  C10 (as amended). With the stock properties as the key filter leaves them,
  \<open>extractProps\<close> fails exactly when they have no partition system, or no partition
  product, or the partition product has no key \<^verbatim>\<open>ro.product.ab_ota_partitions\<close>. A
  partition system without the key \<^verbatim>\<open>ro.system.build.fingerprint\<close> is no failure: the
  fingerprint returned is the lookup, which is then undefined.
\<close>

theorem extractProps_failure:
  assumes filtered: "stock = map (\<lambda>(part, props). (part, filterKeys (filters_props config) props))
                               (loadPartitionProps stockSrc)"
  shows "(extractProps loadPartitionProps diffProps config customState stockSrc customSrc = Inl TypeError
            \<longleftrightarrow>
          map_get stock ''system'' = None \<or> map_get stock ''product'' = None \<or>
          (\<exists>product. map_get stock ''product'' = Some product \<and>
                      map_get product ''ro.product.ab_ota_partitions'' = None)) \<and>
         (\<forall>system res.
            map_get stock ''system'' = Some system \<and>
            extractProps loadPartitionProps diffProps config customState stockSrc customSrc = Inr res
            \<longrightarrow> fingerprint res = map_get system ''ro.system.build.fingerprint'')"
proof (cases "map_get stock ''system''")
  case None
  then have "extractProps loadPartitionProps diffProps config customState stockSrc customSrc =
             Inl TypeError"
    unfolding filtered extractProps_def Let_def by simp
  with None show ?thesis by simp
next
  case system: (Some system)
  show ?thesis
  proof (cases "map_get stock ''product''")
    case None
    with system have "extractProps loadPartitionProps diffProps config customState stockSrc customSrc =
             Inl TypeError"
      unfolding filtered extractProps_def Let_def by simp
    with None show ?thesis by simp
  next
    case product: (Some product)
    show ?thesis
    proof (cases "map_get product ''ro.product.ab_ota_partitions''")
      case None
      with system product
      have "extractProps loadPartitionProps diffProps config customState stockSrc customSrc =
             Inl TypeError"
        unfolding filtered extractProps_def Let_def by simp
      with None product show ?thesis by simp
    next
      case (Some ota)
      with system product
      have "\<exists>res. extractProps loadPartitionProps diffProps config customState stockSrc customSrc =
                    Inr res \<and> fingerprint res = map_get system ''ro.system.build.fingerprint''"
        unfolding filtered extractProps_def Let_def by simp
      with Some system product show ?thesis by auto
    qed
  qed
qed

theorem extractProps_failure_witness:
  "extractProps
     (\<lambda>src. [(''system'', [(''ro.system.build.fingerprint'', ''google/raven/raven:12'')])])
     diffPartitionProps
     \<lparr>device_name = ''raven'', platform_sepolicy_dirs = [], filters_props = (\<lambda>k. True),
      filters_partitions = (\<lambda>k. True), filters_sepolicy_dirs = (\<lambda>k. True)\<rparr>
     None ''stock'' None = Inl TypeError"
proof -
  let ?load = "\<lambda>src::string. [(''system'', [(''ro.system.build.fingerprint'', ''google/raven/raven:12'')])]"
  let ?config = "\<lparr>device_name = ''raven'', platform_sepolicy_dirs = [], filters_props = (\<lambda>k. True),
      filters_partitions = (\<lambda>k. True), filters_sepolicy_dirs = (\<lambda>k. True)\<rparr>"
  let ?stock = "map (\<lambda>(part, props). (part, filterKeys (filters_props ?config) props)) (?load ''stock'')"
  have "map_get ?stock ''product'' = None"
    by (simp add: map_get_def)
  then show ?thesis
    using extractProps_failure
      [where stock = ?stock and loadPartitionProps = ?load and config = ?config
         and stockSrc = "''stock''" and diffProps = diffPartitionProps
         and customState = None and customSrc = None, OF refl]
    by blast
qed

text \<open>
  C10, the claim as stated fails: a stock image whose partition system has no
  fingerprint key is processed to the end, with an undefined fingerprint.
\<close>

theorem extractProps_without_fingerprint_key_returns:
  "extractProps
     (\<lambda>src. [(''system'', [(''ro.build.id'', ''SQ1D'')]),
              (''product'', [(''ro.product.ab_ota_partitions'', ''boot,vendor'')])])
     diffPartitionProps
     \<lparr>device_name = ''raven'', platform_sepolicy_dirs = [], filters_props = (\<lambda>k. True),
      filters_partitions = (\<lambda>k. True), filters_sepolicy_dirs = (\<lambda>k. True)\<rparr>
     None ''stock'' None
   = Inr \<lparr>stockProps = [(''system'', [(''ro.build.id'', ''SQ1D'')]),
                         (''product'', [(''ro.product.ab_ota_partitions'', ''boot,vendor'')])],
          missingProps = Some [], fingerprint = None,
          missingOtaParts = [''boot'', ''vendor'']\<rparr>"
  by (simp add: extractProps_def Let_def map_get_def filterKeys_def filterValue_def
      diffPartitionProps_def)

lemma map_get_filter_keys:
  "map_get (filter (\<lambda>(k, v). P k) m) k = (if P k then map_get m k else None)"
  by (induction m) (auto simp: map_get_def)

lemma map_get_removed_diffPartitionProps:
  "map_get (map (\<lambda>(part, props). (part, removed props)) (diffPartitionProps stock custom)) part =
   (case map_get stock part of
      None \<Rightarrow> None
    | Some propsRef \<Rightarrow>
        (case map_get custom part of
           None \<Rightarrow> None
         | Some propsNew \<Rightarrow> Some (filter (\<lambda>(k, v). \<not> map_has propsNew k) propsRef)))"
proof (induction stock)
  case Nil
  then show ?case by (simp add: diffPartitionProps_def map_get_def)
next
  case (Cons e stock)
  obtain p propsRef where e: "e = (p, propsRef)" by (cases e)
  have unf: "diffPartitionProps ((p, propsRef) # stock) custom =
        (case map_get custom p of
           None \<Rightarrow> []
         | Some propsNew \<Rightarrow>
             [(p, \<lparr>removed = filter (\<lambda>(k, v). \<not> map_has propsNew k) propsRef,
                   changed = filter (\<lambda>(k, v). case map_get propsNew k of
                                        None \<Rightarrow> False | Some v' \<Rightarrow> v' \<noteq> v) propsRef\<rparr>)])
        @ diffPartitionProps stock custom"
    unfolding diffPartitionProps_def by simp
  show ?case
  proof (cases "map_get custom p")
    case None
    show ?thesis
    proof (cases "p = part")
      case True
      with None Cons show ?thesis
        unfolding e unf by (simp add: map_get_def split: option.splits)
    next
      case False
      with None Cons show ?thesis
        unfolding e unf by (simp add: map_get_def)
    qed
  next
    case (Some propsNew)
    with Cons show ?thesis
      unfolding e unf by (simp add: map_get_def)
  qed
qed

lemma extractProps_missingProps:
  assumes "extractProps loadPartitionProps diffProps config customState stockSrc customSrc = Inr res"
  shows "missingProps res =
     Some (map (\<lambda>(part, props). (part, removed props))
        (diffProps
           (map (\<lambda>(part, props). (part, filterKeys (filters_props config) props))
              (loadPartitionProps stockSrc))
           (map (\<lambda>(part, props). (part, filterKeys (filters_props config) props))
              (case customState of
                 Some st \<Rightarrow> partitionProps st
               | None \<Rightarrow> (case customSrc of Some src \<Rightarrow> loadPartitionProps src | None \<Rightarrow> [])))))"
proof -
  let ?stock = "map (\<lambda>(part, props). (part, filterKeys (filters_props config) props))
              (loadPartitionProps stockSrc)"
  from assms obtain system where system: "map_get ?stock ''system'' = Some system"
    unfolding extractProps_def Let_def by (cases "map_get ?stock ''system''") simp_all
  from assms system obtain product where product: "map_get ?stock ''product'' = Some product"
    unfolding extractProps_def Let_def by (cases "map_get ?stock ''product''") simp_all
  from assms system product obtain ota where
    ota: "map_get product ''ro.product.ab_ota_partitions'' = Some ota"
    unfolding extractProps_def Let_def
    by (cases "map_get product ''ro.product.ab_ota_partitions''") simp_all
  from assms system product ota show ?thesis
    unfolding extractProps_def Let_def by auto
qed

text \<open>
  C6. When \<open>extractProps\<close> returns, its \<open>missingProps\<close> has, for a partition and a key,
  the value \<open>v\<close> exactly when the partition is in both images, the stock partition has
  the key with \<open>v\<close> and the custom partition has not the key (stock and custom as the
  key filter leaves them). A key that the custom partition has, with whatever value, is
  not in it.
\<close>

theorem missingProps_are_removed_properties:
  assumes stock: "stock = map (\<lambda>(part, props). (part, filterKeys (filters_props config) props))
                            (loadPartitionProps stockSrc)"
    and custom: "custom = map (\<lambda>(part, props). (part, filterKeys (filters_props config) props))
                   (case customState of
                      Some st \<Rightarrow> partitionProps st
                    | None \<Rightarrow> (case customSrc of Some src \<Rightarrow> loadPartitionProps src | None \<Rightarrow> []))"
    and returned: "extractProps loadPartitionProps diffPartitionProps config customState
                     stockSrc customSrc = Inr res"
  shows "\<exists>missing. missingProps res = Some missing \<and>
           (\<forall>part k v.
              (\<exists>props. map_get missing part = Some props \<and> map_get props k = Some v) \<longleftrightarrow>
              (\<exists>propsRef propsNew.
                 map_get stock part = Some propsRef \<and> map_get custom part = Some propsNew \<and>
                 map_get propsRef k = Some v \<and> map_get propsNew k = None)) \<and>
           (\<forall>part props propsNew k v'.
              map_get missing part = Some props \<and> map_get custom part = Some propsNew \<and>
              map_get propsNew k = Some v' \<longrightarrow> map_get props k = None)"
proof -
  let ?missing = "map (\<lambda>(part, props). (part, removed props)) (diffPartitionProps stock custom)"
  have m: "missingProps res = Some ?missing"
    unfolding stock custom using returned by (rule extractProps_missingProps)
  have get: "map_get ?missing part =
      (case map_get stock part of
         None \<Rightarrow> None
       | Some propsRef \<Rightarrow>
           (case map_get custom part of
              None \<Rightarrow> None
            | Some propsNew \<Rightarrow> Some (filter (\<lambda>(k, v). \<not> map_has propsNew k) propsRef)))" for part
    by (rule map_get_removed_diffPartitionProps)
  have has: "map_has propsNew k \<longleftrightarrow> map_get propsNew k \<noteq> None" for propsNew :: "(string, string) js_map" and k
    by (simp add: map_has_def map_get_def)
  have a: "(\<exists>props. map_get ?missing part = Some props \<and> map_get props k = Some v) \<longleftrightarrow>
              (\<exists>propsRef propsNew.
                 map_get stock part = Some propsRef \<and> map_get custom part = Some propsNew \<and>
                 map_get propsRef k = Some v \<and> map_get propsNew k = None)" for part k v
    unfolding get by (auto simp: map_get_filter_keys has split: option.splits)
  have b: "map_get ?missing part = Some props \<and> map_get custom part = Some propsNew \<and>
              map_get propsNew k = Some v' \<longrightarrow> map_get props k = None" for part props propsNew k v'
    unfolding get by (auto simp: map_get_filter_keys has split: option.splits)
  show ?thesis using m a b by blast
qed

theorem missingProps_are_removed_properties_witness:
  "\<exists>res missing props.
     extractProps
       (\<lambda>src. if src = ''stock''
              then [(''system'', [(''ro.a'', ''1''), (''ro.b'', ''1'')]),
                    (''product'', [(''ro.product.ab_ota_partitions'', ''boot'')])]
              else [(''system'', [(''ro.b'', ''2'')])])
       diffPartitionProps
       \<lparr>device_name = ''raven'', platform_sepolicy_dirs = [], filters_props = (\<lambda>k. True),
        filters_partitions = (\<lambda>k. True), filters_sepolicy_dirs = (\<lambda>k. True)\<rparr>
       None ''stock'' (Some ''custom'') = Inr res \<and>
     missingProps res = Some missing \<and> map_get missing ''system'' = Some props \<and>
     map_get props ''ro.a'' = Some ''1'' \<and> map_get props ''ro.b'' = None"
proof -
  let ?load = "\<lambda>src. if src = ''stock''
              then [(''system'', [(''ro.a'', ''1''), (''ro.b'', ''1'')]),
                    (''product'', [(''ro.product.ab_ota_partitions'', ''boot'')])]
              else [(''system'', [(''ro.b'', ''2'')])]"
  let ?config = "\<lparr>device_name = ''raven'', platform_sepolicy_dirs = [], filters_props = (\<lambda>k. True),
        filters_partitions = (\<lambda>k. True), filters_sepolicy_dirs = (\<lambda>k. True)\<rparr>"
  let ?stock = "map (\<lambda>(part, props). (part, filterKeys (filters_props ?config) props)) (?load ''stock'')"
  let ?custom = "map (\<lambda>(part, props). (part, filterKeys (filters_props ?config) props))
                   (case (None :: SystemState option) of
                      Some st \<Rightarrow> partitionProps st
                    | None \<Rightarrow> (case Some ''custom'' of Some src \<Rightarrow> ?load src | None \<Rightarrow> []))"
  have stock: "?stock = [(''system'', [(''ro.a'', ''1''), (''ro.b'', ''1'')]),
                    (''product'', [(''ro.product.ab_ota_partitions'', ''boot'')])]"
    by (simp add: filterKeys_def filterValue_def)
  have custom: "?custom = [(''system'', [(''ro.b'', ''2'')])]"
    by (simp add: filterKeys_def filterValue_def)
  obtain res where returned:
    "extractProps ?load diffPartitionProps ?config None ''stock'' (Some ''custom'') = Inr res"
    unfolding extractProps_def Let_def stock by (simp add: map_get_def)
  from missingProps_are_removed_properties
    [where stock = ?stock and custom = ?custom and loadPartitionProps = ?load
       and config = ?config and customState = "None :: SystemState option" and customSrc = "Some ''custom''"
       and stockSrc = "''stock''" and res = res, OF refl refl returned]
  obtain missing where missing: "missingProps res = Some missing"
    and removed: "\<And>part k v.
         (\<exists>props. map_get missing part = Some props \<and> map_get props k = Some v) \<longleftrightarrow>
         (\<exists>propsRef propsNew.
            map_get ?stock part = Some propsRef \<and> map_get ?custom part = Some propsNew \<and>
            map_get propsRef k = Some v \<and> map_get propsNew k = None)"
    and changed: "\<And>part props propsNew k v'.
         map_get missing part = Some props \<and> map_get ?custom part = Some propsNew \<and>
         map_get propsNew k = Some v' \<longrightarrow> map_get props k = None"
    by blast
  have "\<exists>propsRef propsNew.
            map_get ?stock ''system'' = Some propsRef \<and> map_get ?custom ''system'' = Some propsNew \<and>
            map_get propsRef ''ro.a'' = Some ''1'' \<and> map_get propsNew ''ro.a'' = None"
    unfolding stock custom by (simp add: map_get_def)
  then obtain props where props: "map_get missing ''system'' = Some props"
    "map_get props ''ro.a'' = Some ''1''"
    unfolding removed [symmetric] by blast
  have "map_get ?custom ''system'' = Some [(''ro.b'', ''2'')] \<and>
        map_get [(''ro.b'', ''2'')] ''ro.b'' = Some ''2''"
    unfolding custom by (simp add: map_get_def)
  with props(1) have "map_get props ''ro.b'' = None"
    using changed [of "''system''" props "[(''ro.b'', ''2'')]" "''ro.b''" "''2''"] by blast
  with returned missing props show ?thesis by blast
qed


section \<open>Properties of serializeBoardMakefile\<close>

lemma sublist_join: "x \<in> set xs \<Longrightarrow> sublist x (join sep xs)"
proof (induction sep xs rule: join.induct)
  case (1 sep)
  then show ?case by simp
next
  case (2 sep y)
  then show ?case by simp
next
  case (3 sep y z zs)
  show ?case
  proof (cases "x = y")
    case True
    then show ?thesis by simp
  next
    case False
    with 3 have "sublist x (join sep (z # zs))" by simp
    then obtain ps ss where "join sep (z # zs) = ps @ x @ ss" by (auto simp: sublist_def)
    then have "join sep (y # z # zs) = (y @ sep @ ps) @ x @ ss" by simp
    then show ?thesis unfolding sublist_def by blast
  qed
qed

lemma sublist_chain: "sublist xs ys \<Longrightarrow> sublist ys zs \<Longrightarrow> sublist xs zs"
  by (rule sublist_order.order_trans)

lemma sublist_finishBlocks: "b \<in> set blocks \<Longrightarrow> sublist b (finishBlocks blocks)"
proof -
  assume "b \<in> set blocks"
  then have "sublist b (join [CHR 0x0A, CHR 0x0A] blocks)" by (rule sublist_join)
  moreover have "sublist (join [CHR 0x0A, CHR 0x0A] blocks) (finishBlocks blocks)"
    unfolding finishBlocks_def by (rule sublist_append_rightI)
  ultimately show ?thesis by (rule sublist_chain)
qed

lemma pushResolution_append: "pushResolution blocks entry = blocks @ resolutionBlocks entry"
  by (cases entry) (simp add: pushResolution_def resolutionBlocks_def addContBlock_def Let_def)

lemma foldl_pushResolution:
  "foldl pushResolution blocks rs = blocks @ concat (map resolutionBlocks rs)"
  by (induction rs arbitrary: blocks) (simp_all add: pushResolution_append)

lemma boardBlocks_resolutions:
  "secontextResolutions mk = Some rs \<Longrightarrow>
   boardBlocks header mk =
     boardBlocks header (mk\<lparr>secontextResolutions := None\<rparr>) @ concat (map resolutionBlocks rs)"
  by (simp add: boardBlocks_def Let_def foldl_pushResolution)

text \<open>The text of one entry's blocks, written out.\<close>

lemma resolutionBlocks_text:
  "resolutionBlocks =
     (\<lambda>(part, r).
        (if sepolicyDirs r = [] then []
         else [template (object_get SEPOLICY_PARTITION_VARS part) @ '' += '' @
               [CHR 0x5C, CHR 0x0A] @ ''    '' @
               join ([CHR '' '', CHR 0x5C, CHR 0x0A] @ ''    '') (sepolicyDirs r)]) @
        (if missingContexts r = [] then []
         else [join [CHR 0x0A]
                 (map (\<lambda>c. ''# Missing '' @ part @ '' SELinux context: '' @ c)
                    (missingContexts r))]))"
proof -
  have comment: "missingComment part = (\<lambda>c. ''# Missing '' @ part @ '' SELinux context: '' @ c)"
    for part
    by (rule ext) (simp add: missingComment_def)
  show ?thesis
    by (rule ext)
      (simp add: resolutionBlocks_def contBlock_def CONT_SEPARATOR_def comment
        split: prod.splits)
qed

lemma partition_variable_text:
  "(part, var) \<in> set [(''system'', ''BOARD_PLAT_PUBLIC_SEPOLICY_DIR''),
                        (''system_ext'', ''SYSTEM_EXT_PUBLIC_SEPOLICY_DIRS''),
                        (''product'', ''PRODUCT_PUBLIC_SEPOLICY_DIRS''),
                        (''vendor'', ''BOARD_VENDOR_SEPOLICY_DIRS''),
                        (''odm'', ''BOARD_ODM_SEPOLICY_DIRS'')] \<Longrightarrow>
   template (object_get SEPOLICY_PARTITION_VARS part) = var"
  by (auto simp: template_def object_get_def SEPOLICY_PARTITION_VARS_def)

text \<open>A partition name that \<^verbatim>\<open>Object.prototype\<close> has as a member reads that member.\<close>

lemma inherited_variable_text:
  "template (object_get SEPOLICY_PARTITION_VARS ''constructor'') =
     ''function Object() { [native code] }'' \<and>
   template (object_get SEPOLICY_PARTITION_VARS ''toString'') =
     ''function toString() { [native code] }'' \<and>
   template (object_get SEPOLICY_PARTITION_VARS ''__proto__'') = ''[object Object]'' \<and>
   template (object_get SEPOLICY_PARTITION_VARS ''vendor_dlkm'') = ''undefined''"
  by (simp add: template_def object_get_def SEPOLICY_PARTITION_VARS_def
      OBJECT_PROTOTYPE_FUNCTIONS_def)

text \<open>
  C9. For every partition of the resolutions given to the serializer, in the
  serialized text: every missing context of the partition has its comment line, naming
  the partition and the label; when the partition has directories, the text has the
  block that adds them to the partition's variable (for the five partitions of the table
  the variable is the one of the table); and the whole text is the blocks without
  resolutions followed, for every partition in order, by its variable block if and only
  if it has directories and by its block of comments if and only if it has missing
  contexts, joined by empty lines.
\<close>

theorem serializeBoardMakefile_surfaces_resolutions:
  assumes given: "secontextResolutions mk = Some resolutions"
    and entry: "(part, r) \<in> set resolutions"
  shows "(\<forall>c \<in> set (missingContexts r).
            sublist (''# Missing '' @ part @ '' SELinux context: '' @ c)
              (serializeBoardMakefile header mk)) \<and>
         (sepolicyDirs r \<noteq> [] \<longrightarrow>
            sublist (template (object_get SEPOLICY_PARTITION_VARS part) @ '' += '' @
                     [CHR 0x5C, CHR 0x0A] @ ''    '' @
                     join ([CHR '' '', CHR 0x5C, CHR 0x0A] @ ''    '') (sepolicyDirs r))
              (serializeBoardMakefile header mk)) \<and>
         (\<forall>var. (part, var) \<in> set [(''system'', ''BOARD_PLAT_PUBLIC_SEPOLICY_DIR''),
                        (''system_ext'', ''SYSTEM_EXT_PUBLIC_SEPOLICY_DIRS''),
                        (''product'', ''PRODUCT_PUBLIC_SEPOLICY_DIRS''),
                        (''vendor'', ''BOARD_VENDOR_SEPOLICY_DIRS''),
                        (''odm'', ''BOARD_ODM_SEPOLICY_DIRS'')] \<longrightarrow>
            template (object_get SEPOLICY_PARTITION_VARS part) = var) \<and>
         serializeBoardMakefile header mk =
           join [CHR 0x0A, CHR 0x0A]
             (boardBlocks header (mk\<lparr>secontextResolutions := None\<rparr>) @
              concat (map (\<lambda>(part, r).
                (if sepolicyDirs r = [] then []
                 else [template (object_get SEPOLICY_PARTITION_VARS part) @ '' += '' @
                       [CHR 0x5C, CHR 0x0A] @ ''    '' @
                       join ([CHR '' '', CHR 0x5C, CHR 0x0A] @ ''    '') (sepolicyDirs r)]) @
                (if missingContexts r = [] then []
                 else [join [CHR 0x0A]
                         (map (\<lambda>c. ''# Missing '' @ part @ '' SELinux context: '' @ c)
                            (missingContexts r))])) resolutions)) @
           [CHR 0x0A]"
proof -
  note blocks = boardBlocks_resolutions [OF given, of header]
  have sub: "set (resolutionBlocks (part, r)) \<subseteq> set (boardBlocks header mk)"
    unfolding blocks using entry by auto
  have ctx: "join [CHR 0x0A] (map (missingComment part) (missingContexts r))
              \<in> set (boardBlocks header mk)" if "missingContexts r \<noteq> []"
    using sub that by (simp add: resolutionBlocks_def)
  have dirs: "contBlock (object_get SEPOLICY_PARTITION_VARS part) (sepolicyDirs r)
              \<in> set (boardBlocks header mk)" if "sepolicyDirs r \<noteq> []"
    using sub that by (simp add: resolutionBlocks_def)
  have line: "sublist (''# Missing '' @ part @ '' SELinux context: '' @ c)
                (serializeBoardMakefile header mk)"
    if c: "c \<in> set (missingContexts r)" for c
  proof -
    from c have "missingContexts r \<noteq> []" by auto
    then have "sublist (join [CHR 0x0A] (map (missingComment part) (missingContexts r)))
                 (serializeBoardMakefile header mk)"
      unfolding serializeBoardMakefile_def by (intro sublist_finishBlocks ctx)
    moreover from c have "sublist (missingComment part c)
                 (join [CHR 0x0A] (map (missingComment part) (missingContexts r)))"
      by (intro sublist_join) simp
    ultimately have "sublist (missingComment part c) (serializeBoardMakefile header mk)"
      by (rule sublist_chain [rotated])
    then show ?thesis unfolding missingComment_def .
  qed
  have var: "sublist (template (object_get SEPOLICY_PARTITION_VARS part) @ '' += '' @
                     [CHR 0x5C, CHR 0x0A] @ ''    '' @
                     join ([CHR '' '', CHR 0x5C, CHR 0x0A] @ ''    '') (sepolicyDirs r))
              (serializeBoardMakefile header mk)" if "sepolicyDirs r \<noteq> []"
  proof -
    have "sublist (contBlock (object_get SEPOLICY_PARTITION_VARS part) (sepolicyDirs r))
            (serializeBoardMakefile header mk)"
      unfolding serializeBoardMakefile_def using that by (intro sublist_finishBlocks dirs)
    then show ?thesis unfolding contBlock_def CONT_SEPARATOR_def .
  qed
  have tab: "\<forall>var. (part, var) \<in> set [(''system'', ''BOARD_PLAT_PUBLIC_SEPOLICY_DIR''),
                        (''system_ext'', ''SYSTEM_EXT_PUBLIC_SEPOLICY_DIRS''),
                        (''product'', ''PRODUCT_PUBLIC_SEPOLICY_DIRS''),
                        (''vendor'', ''BOARD_VENDOR_SEPOLICY_DIRS''),
                        (''odm'', ''BOARD_ODM_SEPOLICY_DIRS'')] \<longrightarrow>
            template (object_get SEPOLICY_PARTITION_VARS part) = var"
    using partition_variable_text by blast
  have whole: "serializeBoardMakefile header mk =
           join [CHR 0x0A, CHR 0x0A]
             (boardBlocks header (mk\<lparr>secontextResolutions := None\<rparr>) @
              concat (map resolutionBlocks resolutions)) @ [CHR 0x0A]"
    unfolding serializeBoardMakefile_def finishBlocks_def blocks ..
  show ?thesis
    using line var tab whole unfolding resolutionBlocks_text by blast
qed

theorem serializeBoardMakefile_surfaces_resolutions_witness:
  "sublist ''# Missing vendor SELinux context: ctxC''
     (serializeBoardMakefile ''# header''
        \<lparr>abOtaPartitions = None, boardInfo = None,
         secontextResolutions = Some
           [(''vendor'', \<lparr>sepolicyDirs = [''hardware/google/pixel-sepolicy'', ''device/google/gs101-sepolicy''],
                          missingContexts = [''ctxC'']\<rparr>)]\<rparr>) \<and>
   sublist (''BOARD_VENDOR_SEPOLICY_DIRS += '' @ [CHR 0x5C, CHR 0x0A] @
            ''    hardware/google/pixel-sepolicy '' @ [CHR 0x5C, CHR 0x0A] @
            ''    device/google/gs101-sepolicy'')
     (serializeBoardMakefile ''# header''
        \<lparr>abOtaPartitions = None, boardInfo = None,
         secontextResolutions = Some
           [(''vendor'', \<lparr>sepolicyDirs = [''hardware/google/pixel-sepolicy'', ''device/google/gs101-sepolicy''],
                          missingContexts = [''ctxC'']\<rparr>)]\<rparr>)"
proof -
  let ?r = "\<lparr>sepolicyDirs = [''hardware/google/pixel-sepolicy'', ''device/google/gs101-sepolicy''],
            missingContexts = [''ctxC'']\<rparr>"
  let ?mk = "\<lparr>abOtaPartitions = None, boardInfo = None,
         secontextResolutions = Some [(''vendor'', ?r)]\<rparr>"
  have given: "secontextResolutions ?mk = Some [(''vendor'', ?r)]" by simp
  have entry: "(''vendor'', ?r) \<in> set [(''vendor'', ?r)]" by simp
  note facts = serializeBoardMakefile_surfaces_resolutions [OF given entry, of "''# header''"]
  have var: "template (object_get SEPOLICY_PARTITION_VARS ''vendor'') =
               ''BOARD_VENDOR_SEPOLICY_DIRS''"
    using facts [THEN conjunct2, THEN conjunct2, THEN conjunct1] by simp
  have comment: "sublist ''# Missing vendor SELinux context: ctxC''
                   (serializeBoardMakefile ''# header'' ?mk)"
    using facts [THEN conjunct1] by simp
  have block: "sublist (''BOARD_VENDOR_SEPOLICY_DIRS += '' @ [CHR 0x5C, CHR 0x0A] @
                        ''    hardware/google/pixel-sepolicy '' @ [CHR 0x5C, CHR 0x0A] @
                        ''    device/google/gs101-sepolicy'')
                 (serializeBoardMakefile ''# header'' ?mk)"
    using facts [THEN conjunct2, THEN conjunct1] unfolding var by simp
  from comment block show ?thesis by (rule conjI)
qed

end
